theory Spec2Isabelle
  imports Main
begin

section \<open>Data model\<close>

text \<open>
  The browser client of \<^verbatim>\<open>auth-utils.ts\<close> and \<^verbatim>\<open>App.tsx\<close>: an OAuth2
  authorization-code flow with PKCE. Strings are JavaScript strings, times are the
  milliseconds of \<^verbatim>\<open>Date.now()\<close>, HTTP status codes are naturals.
\<close>

text \<open>\<^verbatim>\<open>interface StoredTokens\<close>, the value kept under \<^verbatim>\<open>TOKEN_STORAGE_KEY\<close>.\<close>

record StoredTokens =
  accessToken :: string
  idToken :: string
  refreshToken :: string
  expiresAt :: int

text \<open>\<^verbatim>\<open>interface TokenResponse\<close>, the JSON body of the token endpoint.\<close>

record TokenResponse =
  access_token :: string
  id_token :: string
  refresh_token :: string
  token_type :: string
  expires_in :: int

text \<open>\<^verbatim>\<open>type UserStatus = 'loading' | 'approved' | 'pending' | 'deactivated' | 'error'\<close>.\<close>

datatype UserStatus = S_loading | S_approved | S_pending | S_deactivated | S_error

text \<open>The object \<^verbatim>\<open>{ code, state }\<close> returned by \<^verbatim>\<open>getAuthorizationCode\<close>.\<close>

record AuthCode =
  code :: string
  state :: string

text \<open>
  A parsed JSON value. \<open>JObj\<close> lists the properties of the parsed object. The code
  reads one property and compares it with a string, so numbers are kept as integers.
\<close>

datatype json =
  JNull
| JBool bool
| JNum int
| JStr string
| JArr "json list"
| JObj "(string \<times> json) list"

text \<open>
  \<^verbatim>\<open>interface UserInfo\<close>. The fields are filled from the claims of the identity token
  with casts (\<^verbatim>\<open>as string\<close>) that check nothing at run time, so each field is the claim
  as it was parsed, or \<^verbatim>\<open>undefined\<close> (\<open>None\<close>).
\<close>

record UserInfo =
  username :: "json option"
  userId :: "json option"
  email :: "json option"
  emailVerified :: "json option"
  givenName :: "json option"
  familyName :: "json option"
  name :: "json option"

text \<open>What a \<^verbatim>\<open>throw\<close> or a rejected promise carries.\<close>

datatype exn =
  Error string
| TypeError
| SyntaxError
| NetworkError

text \<open>
  The outcome of the \<^verbatim>\<open>fetch\<close> of \<^verbatim>\<open>checkUserStatus\<close>: the promise rejects, or it
  resolves to a response with a status code and a body; the body is \<open>None\<close> when
  \<^verbatim>\<open>response.json()\<close> cannot parse it.
\<close>

datatype status_fetch =
  StatusFetchRejected
| StatusFetchResponse nat "json option"

text \<open>
  The outcome of the \<^verbatim>\<open>fetch\<close> of \<^verbatim>\<open>exchangeCodeForTokens\<close>: rejected, or a response
  with its \<^verbatim>\<open>ok\<close> flag and its body text.
\<close>

datatype token_fetch =
  TokenFetchRejected
| TokenFetchResponse bool string

text \<open>
  The effects a run leaves outside the page: console output, the two network requests
  (the token request carries the code and the verifier, the status request the bearer
  token) and the timers of the poll loop.
\<close>

datatype event =
  ConsoleError string
| TokenRequest string string
| StatusRequest string
| SetTimeout nat

text \<open>
  Everything the initialisation routine shares with the rest of the page.
  \<^item> \<open>ss_verifier\<close>, \<open>ss_state\<close>, \<open>ss_pending_code\<close>, \<open>ss_exchange\<close>: the items of
    \<^verbatim>\<open>sessionStorage\<close> under \<^verbatim>\<open>STORAGE_KEY_VERIFIER\<close>, \<^verbatim>\<open>STORAGE_KEY_STATE\<close>,
    \<^verbatim>\<open>STORAGE_KEY_PENDING_CODE\<close> and \<^verbatim>\<open>STORAGE_KEY_EXCHANGE_IN_PROGRESS\<close>; \<open>None\<close> is
    what \<^verbatim>\<open>getItem\<close> answers with \<^verbatim>\<open>null\<close>. The pending item is only written as
    \<^verbatim>\<open>JSON.stringify({ code, state })\<close> and read back with \<^verbatim>\<open>JSON.parse\<close>, so it is
    kept as the object it parses to.
  \<^item> \<open>ls_tokens\<close>: the item of \<^verbatim>\<open>localStorage\<close> under \<^verbatim>\<open>TOKEN_STORAGE_KEY\<close>, written
    only as \<^verbatim>\<open>JSON.stringify(storedTokens)\<close>, kept as the object it parses to.
  \<^item> \<open>search\<close>: the query parameters of \<^verbatim>\<open>window.location\<close>, in order;
    \<open>history_length\<close>: \<^verbatim>\<open>window.history.length\<close>.
  \<^item> \<open>user\<close>, \<open>userStatus\<close>, \<open>loading\<close>: the React state of \<^verbatim>\<open>App\<close>.
\<close>

record world =
  ss_verifier :: "string option"
  ss_state :: "string option"
  ss_pending_code :: "AuthCode option"
  ss_exchange :: "string option"
  ls_tokens :: "StoredTokens option"
  search :: "(string \<times> string) list"
  history_length :: nat
  user :: "UserInfo option"
  userStatus :: UserStatus
  loading :: bool

section \<open>\<^verbatim>\<open>auth-utils.ts\<close>\<close>

text \<open>\<^verbatim>\<open>URLSearchParams.get\<close>: the first value of the name, or \<^verbatim>\<open>null\<close>.\<close>

definition params_get :: "(string \<times> string) list \<Rightarrow> string \<Rightarrow> string option" where
  "params_get ps k = map_of ps k"

text \<open>\<^verbatim>\<open>URLSearchParams.delete\<close>: every pair of that name goes.\<close>

definition params_delete :: "(string \<times> string) list \<Rightarrow> string \<Rightarrow> (string \<times> string) list" where
  "params_delete ps k = filter (\<lambda>p. fst p \<noteq> k) ps"

text \<open>
  \<^verbatim>\<open>validateState\<close>: \<^verbatim>\<open>storedState === returnedState\<close>, where \<^verbatim>\<open>storedState\<close> is
  \<^verbatim>\<open>null\<close> when nothing is stored.
\<close>

definition validateState :: "string \<Rightarrow> world \<Rightarrow> bool" where
  "validateState returnedState w = (ss_state w = Some returnedState)"

text \<open>
  \<^verbatim>\<open>getAuthorizationCode\<close>. The test \<^verbatim>\<open>code && state\<close> is JavaScript truthiness: a
  parameter that is missing (\<^verbatim>\<open>null\<close>) or empty fails it. On the first branch the pair
  is stored, both parameters are deleted from the URL and the URL is put back with
  \<^verbatim>\<open>history.replaceState\<close>, which replaces the current history entry.
\<close>

definition getAuthorizationCode :: "world \<Rightarrow> AuthCode option \<times> world" where
  "getAuthorizationCode w =
     (let fromStorage =
            (case ss_pending_code w of
               Some pending \<Rightarrow> (Some pending, w)
             | None \<Rightarrow> (None, w))
      in case params_get (search w) ''code'' of
           None \<Rightarrow> fromStorage
         | Some c \<Rightarrow>
             (case params_get (search w) ''state'' of
                None \<Rightarrow> fromStorage
              | Some s \<Rightarrow>
                  if c \<noteq> [] \<and> s \<noteq> [] then
                    (Some \<lparr>code = c, state = s\<rparr>,
                     w\<lparr>ss_pending_code := Some \<lparr>code = c, state = s\<rparr>,
                       search := params_delete (params_delete (search w) ''code'') ''state''\<rparr>)
                  else fromStorage))"

text \<open>\<^verbatim>\<open>clearAuthorizationCode\<close>: two \<^verbatim>\<open>removeItem\<close> calls.\<close>

definition clearAuthorizationCode :: "world \<Rightarrow> world" where
  "clearAuthorizationCode w = w\<lparr>ss_pending_code := None, ss_exchange := None\<rparr>"

definition markExchangeInProgress :: "world \<Rightarrow> world" where
  "markExchangeInProgress w = w\<lparr>ss_exchange := Some ''true''\<rparr>"

definition isExchangeInProgress :: "world \<Rightarrow> bool" where
  "isExchangeInProgress w = (ss_exchange w = Some ''true'')"

text \<open>
  \<^verbatim>\<open>exchangeCodeForTokens\<close> runs in three stretches, cut at its two suspension points.
  Up to the \<^verbatim>\<open>fetch\<close>: read the verifier, throw when it is \<^verbatim>\<open>null\<close> or empty
  (\<^verbatim>\<open>!codeVerifier\<close>), otherwise send the request.
\<close>

definition exchangeCodeForTokens_begin :: "string \<Rightarrow> world \<Rightarrow> exn + event" where
  "exchangeCodeForTokens_begin c w =
     (case ss_verifier w of
        None \<Rightarrow> Inl (Error ''No code verifier found'')
      | Some codeVerifier \<Rightarrow>
          if codeVerifier = [] then Inl (Error ''No code verifier found'')
          else Inr (TokenRequest c codeVerifier))"

text \<open>
  When the \<^verbatim>\<open>fetch\<close> settles: a rejection propagates; a response that is not
  \<^verbatim>\<open>ok\<close> throws with its body in the message; otherwise the verifier and the state
  are removed.
\<close>

definition exchangeCodeForTokens_response :: "token_fetch \<Rightarrow> world \<Rightarrow> (exn + unit) \<times> world" where
  "exchangeCodeForTokens_response r w =
     (case r of
        TokenFetchRejected \<Rightarrow> (Inl NetworkError, w)
      | TokenFetchResponse ok body \<Rightarrow>
          if \<not> ok then (Inl (Error (''Token exchange failed: '' @ body)), w)
          else (Inr (), w\<lparr>ss_verifier := None, ss_state := None\<rparr>))"

text \<open>
  \<^verbatim>\<open>return response.json()\<close>: the parsed body, or a rejection when the body is not
  JSON (\<open>None\<close>).
\<close>

definition exchangeCodeForTokens_json :: "TokenResponse option \<Rightarrow> exn + TokenResponse" where
  "exchangeCodeForTokens_json parsed =
     (case parsed of None \<Rightarrow> Inl SyntaxError | Some tokens \<Rightarrow> Inr tokens)"

section \<open>\<^verbatim>\<open>App.tsx\<close>: the account status\<close>

text \<open>\<^verbatim>\<open>await response.json()\<close> inside the inner \<^verbatim>\<open>try\<close>.\<close>

definition response_json :: "json option \<Rightarrow> exn + json" where
  "response_json body = (case body of None \<Rightarrow> Inl SyntaxError | Some j \<Rightarrow> Inr j)"

text \<open>
  The property read \<^verbatim>\<open>body.code\<close>: a \<^verbatim>\<open>TypeError\<close> on \<^verbatim>\<open>null\<close>, the property of an
  object when it has one, \<^verbatim>\<open>undefined\<close> (\<open>None\<close>) in every other case.
\<close>

fun body_code :: "json \<Rightarrow> exn + json option" where
  "body_code JNull = Inl TypeError"
| "body_code (JObj props) = Inr (map_of props ''code'')"
| "body_code _ = Inr None"

text \<open>
  \<^verbatim>\<open>checkUserStatus\<close>, as a function of what its \<^verbatim>\<open>fetch\<close> settles to. The inner
  \<^verbatim>\<open>try\<close> swallows every exception and falls through to \<^verbatim>\<open>'pending'\<close>; the outer one
  turns a rejected \<^verbatim>\<open>fetch\<close> into \<^verbatim>\<open>'error'\<close>.
\<close>

definition checkUserStatus :: "status_fetch \<Rightarrow> UserStatus" where
  "checkUserStatus r =
     (case r of
        StatusFetchRejected \<Rightarrow> S_error
      | StatusFetchResponse status body \<Rightarrow>
          if status = 200 then S_approved
          else if status = 403 then
            (case response_json body of
               Inl e \<Rightarrow> S_pending
             | Inr b \<Rightarrow>
                 (case body_code b of
                    Inl e \<Rightarrow> S_pending
                  | Inr c \<Rightarrow>
                      if c = Some (JStr ''ACCOUNT_DESACTIVATED'') then S_deactivated
                      else S_pending))
          else S_error)"

section \<open>\<^verbatim>\<open>App.tsx\<close>: initialisation\<close>

text \<open>
  \<^verbatim>\<open>handleAuth\<close> is an \<^verbatim>\<open>async\<close> function on JavaScript's single thread: it runs
  without interruption from one \<^verbatim>\<open>await\<close> to the next, and anything else on the page
  (a second \<^verbatim>\<open>handleAuth\<close> of a double mount included) runs only while it is
  suspended. A run is therefore a sequence of steps; \<open>pc\<close> says where a suspended run
  waits, \<open>input\<close> what wakes it.
\<close>

datatype pc =
  Start
| AwaitCachedStatus
| AwaitPollTimer nat
| AwaitPollStatus
| AwaitTokenFetch
| AwaitTokenJson
| AwaitOwnerStatus
| AwaitStoredStatus
| Finished
| Rejected exn

datatype input =
  Begin
| TimerFired
| TokenFetched token_fetch
| TokenParsed "TokenResponse option"
| StatusFetched status_fetch

text \<open>
  The test on a stored item that all three reads of the callback branch and
  \<^verbatim>\<open>checkStoredTokens\<close> share: \<^verbatim>\<open>stored\<close> is there and
  \<^verbatim>\<open>tokens.expiresAt > Date.now()\<close>.
\<close>

definition valid_tokens :: "int \<Rightarrow> world \<Rightarrow> StoredTokens option" where
  "valid_tokens now w =
     (case ls_tokens w of
        None \<Rightarrow> None
      | Some tokens \<Rightarrow> if expiresAt tokens > now then Some tokens else None)"

text \<open>
  The lines that follow a valid stored token in the callback branch (356 to 359 and 376 to
  379): clear the pending code, decode the user from the identity token, publish it and
  send the status request. \<open>getUserInfoFromToken\<close> is the function of that name, taken
  here by what it answers: the user, or \<open>None\<close> where it throws. Outside a \<^verbatim>\<open>try\<close>
  the exception rejects the run.
\<close>

definition use_stored_tokens ::
  "(string \<Rightarrow> UserInfo option) \<Rightarrow> StoredTokens \<Rightarrow> pc \<Rightarrow> world \<Rightarrow> pc \<times> event list \<times> world" where
  "use_stored_tokens getUserInfoFromToken tokens next w =
     (let w1 = clearAuthorizationCode w
      in case getUserInfoFromToken (idToken tokens) of
           None \<Rightarrow> (Rejected TypeError, [], w1)
         | Some userInfo \<Rightarrow>
             (next, [StatusRequest (idToken tokens)], w1\<lparr>user := Some userInfo\<rparr>))"

text \<open>The \<^verbatim>\<open>catch\<close> block of the exchange, followed by \<^verbatim>\<open>setLoading(false)\<close>.\<close>

definition exchange_failed :: "world \<Rightarrow> pc \<times> event list \<times> world" where
  "exchange_failed w =
     (Finished, [ConsoleError ''Token exchange failed:''],
      (clearAuthorizationCode w)\<lparr>userStatus := S_error, loading := False\<rparr>)"

text \<open>The lines after \<^verbatim>\<open>waitForTokens\<close> has returned \<^verbatim>\<open>false\<close>.\<close>

definition poll_failed :: "world \<Rightarrow> pc \<times> event list \<times> world" where
  "poll_failed w =
     (Finished, [], (clearAuthorizationCode w)\<lparr>userStatus := S_error, loading := False\<rparr>)"

text \<open>
  \<^verbatim>\<open>checkStoredTokens\<close> up to its \<^verbatim>\<open>await\<close>, with the \<^verbatim>\<open>setLoading(false)\<close> of the
  caller on the paths that return \<^verbatim>\<open>false\<close> at once.
\<close>

definition checkStoredTokens ::
  "(string \<Rightarrow> UserInfo option) \<Rightarrow> int \<Rightarrow> world \<Rightarrow> pc \<times> event list \<times> world" where
  "checkStoredTokens getUserInfoFromToken now w =
     (case ls_tokens w of
        None \<Rightarrow> (Finished, [], w\<lparr>loading := False\<rparr>)
      | Some tokens \<Rightarrow>
          if expiresAt tokens > now then
            (case getUserInfoFromToken (idToken tokens) of
               None \<Rightarrow> (Rejected TypeError, [], w)
             | Some userInfo \<Rightarrow>
                 (AwaitStoredStatus, [StatusRequest (idToken tokens)], w\<lparr>user := Some userInfo\<rparr>))
          else (Finished, [], w\<lparr>ls_tokens := None, loading := False\<rparr>))"

text \<open>\<^verbatim>\<open>handleAuth\<close> from its call to its first \<^verbatim>\<open>await\<close> or its return.\<close>

definition handleAuth_begin ::
  "(string \<Rightarrow> UserInfo option) \<Rightarrow> int \<Rightarrow> world \<Rightarrow> pc \<times> event list \<times> world" where
  "handleAuth_begin getUserInfoFromToken now w =
     (case getAuthorizationCode w of
        (None, w1) \<Rightarrow> checkStoredTokens getUserInfoFromToken now w1
      | (Some authCode, w1) \<Rightarrow>
          if \<not> validateState (state authCode) w1 then
            (Finished, [ConsoleError ''Invalid OAuth state''],
             (clearAuthorizationCode w1)\<lparr>loading := False\<rparr>)
          else
            (case valid_tokens now w1 of
               Some tokens \<Rightarrow>
                 use_stored_tokens getUserInfoFromToken tokens AwaitCachedStatus w1
             | None \<Rightarrow>
                 if isExchangeInProgress w1 then (AwaitPollTimer 0, [SetTimeout 100], w1)
                 else
                   (let w2 = markExchangeInProgress w1
                    in case exchangeCodeForTokens_begin (code authCode) w2 of
                         Inl e \<Rightarrow> exchange_failed w2
                       | Inr request \<Rightarrow> (AwaitTokenFetch, [request], w2))))"

text \<open>
  One pass of the loop of \<^verbatim>\<open>waitForTokens\<close> after the timer of pass \<open>i\<close> has fired:
  \<^verbatim>\<open>for (let i = 0; i < 50; i++)\<close>.
\<close>

definition poll_step ::
  "(string \<Rightarrow> UserInfo option) \<Rightarrow> int \<Rightarrow> nat \<Rightarrow> world \<Rightarrow> pc \<times> event list \<times> world" where
  "poll_step getUserInfoFromToken now i w =
     (case valid_tokens now w of
        Some tokens \<Rightarrow> use_stored_tokens getUserInfoFromToken tokens AwaitPollStatus w
      | None \<Rightarrow>
          if \<not> isExchangeInProgress w then poll_failed w
          else if i + 1 < 50 then (AwaitPollTimer (i + 1), [SetTimeout 100], w)
          else poll_failed w)"

text \<open>The \<^verbatim>\<open>try\<close> block once \<^verbatim>\<open>exchangeCodeForTokens\<close> has returned its tokens.\<close>

definition store_tokens ::
  "(string \<Rightarrow> UserInfo option) \<Rightarrow> int \<Rightarrow> TokenResponse \<Rightarrow> world \<Rightarrow> pc \<times> event list \<times> world" where
  "store_tokens getUserInfoFromToken now tokens w =
     (let storedTokens =
            \<lparr>accessToken = access_token tokens,
             idToken = id_token tokens,
             refreshToken = refresh_token tokens,
             expiresAt = now + expires_in tokens * 1000\<rparr>;
          w1 = clearAuthorizationCode (w\<lparr>ls_tokens := Some storedTokens\<rparr>)
      in case getUserInfoFromToken (id_token tokens) of
           None \<Rightarrow> exchange_failed w1
         | Some userInfo \<Rightarrow>
             (AwaitOwnerStatus, [StatusRequest (id_token tokens)], w1\<lparr>user := Some userInfo\<rparr>))"

text \<open>
  What \<^verbatim>\<open>checkUserStatus\<close> writes to the console: its outer \<^verbatim>\<open>catch\<close> logs a rejected
  \<^verbatim>\<open>fetch\<close>; the inner one is silent.
\<close>

definition checkUserStatus_log :: "status_fetch \<Rightarrow> event list" where
  "checkUserStatus_log r =
     (case r of
        StatusFetchRejected \<Rightarrow> [ConsoleError ''Error checking user status:'']
      | StatusFetchResponse status body \<Rightarrow> [])"

text \<open>
  The rest of \<^verbatim>\<open>checkUserStatus\<close> once its \<^verbatim>\<open>fetch\<close> has settled, then
  \<^verbatim>\<open>setUserStatus(status)\<close> and \<^verbatim>\<open>setLoading(false)\<close>.
\<close>

definition publish_status :: "status_fetch \<Rightarrow> world \<Rightarrow> pc \<times> event list \<times> world" where
  "publish_status r w =
     (Finished, checkUserStatus_log r, w\<lparr>userStatus := checkUserStatus r, loading := False\<rparr>)"

text \<open>
  One step of a run: at time \<open>now\<close> the run waiting at \<open>p\<close> is woken by \<open>i\<close> in the
  world \<open>w\<close>. An input that the run does not wait for leaves everything as it is.
\<close>

fun handleAuth ::
  "(string \<Rightarrow> UserInfo option) \<Rightarrow> int \<Rightarrow> pc \<Rightarrow> input \<Rightarrow> world \<Rightarrow> pc \<times> event list \<times> world" where
  "handleAuth g now Start Begin w = handleAuth_begin g now w"
| "handleAuth g now (AwaitPollTimer i) TimerFired w = poll_step g now i w"
| "handleAuth g now AwaitTokenFetch (TokenFetched r) w =
     (case exchangeCodeForTokens_response r w of
        (Inl e, w1) \<Rightarrow> exchange_failed w1
      | (Inr u, w1) \<Rightarrow> (AwaitTokenJson, [], w1))"
| "handleAuth g now AwaitTokenJson (TokenParsed parsed) w =
     (case exchangeCodeForTokens_json parsed of
        Inl e \<Rightarrow> exchange_failed w
      | Inr tokens \<Rightarrow> store_tokens g now tokens w)"
| "handleAuth g now AwaitCachedStatus (StatusFetched r) w = publish_status r w"
| "handleAuth g now AwaitPollStatus (StatusFetched r) w = publish_status r w"
| "handleAuth g now AwaitOwnerStatus (StatusFetched r) w = publish_status r w"
| "handleAuth g now AwaitStoredStatus (StatusFetched r) w = publish_status r w"
| "handleAuth g now p i w = (p, [], w)"

text \<open>The React state before the first effect runs.\<close>

definition fresh_page :: "(string \<times> string) list \<Rightarrow> world" where
  "fresh_page query =
     \<lparr>ss_verifier = None, ss_state = None, ss_pending_code = None, ss_exchange = None,
      ls_tokens = None, search = query, history_length = 1,
      user = None, userStatus = S_loading, loading = True\<rparr>"

section \<open>\<^verbatim>\<open>App.tsx\<close>: the identity token\<close>

text \<open>\<^verbatim>\<open>String.prototype.split\<close> with a one-character separator.\<close>

fun split_on :: "char \<Rightarrow> string \<Rightarrow> string list" where
  "split_on c [] = [[]]"
| "split_on c (x # xs) =
     (if x = c then [] # split_on c xs
      else (case split_on c xs of
              [] \<Rightarrow> [[x]]
            | s # ss \<Rightarrow> (x # s) # ss))"

text \<open>
  \<^verbatim>\<open>parseJwt\<close>. \<^verbatim>\<open>token.split('.')[1]\<close> is \<^verbatim>\<open>undefined\<close> when the token has no
  dot, and the \<^verbatim>\<open>replace\<close> called on it throws a \<^verbatim>\<open>TypeError\<close>. What follows on the
  second segment (the two \<^verbatim>\<open>replace\<close>, \<^verbatim>\<open>atob\<close>, \<^verbatim>\<open>decodeURIComponent\<close>,
  \<^verbatim>\<open>JSON.parse\<close>) is the browser's; \<open>decode\<close> stands for it, with the exception it
  throws or the value it parses.
\<close>

definition parseJwt :: "(string \<Rightarrow> exn + json) \<Rightarrow> string \<Rightarrow> exn + json" where
  "parseJwt decode token =
     (case split_on CHR ''.'' token of
        header # base64Url # rest \<Rightarrow> decode base64Url
      | _ \<Rightarrow> Inl TypeError)"

text \<open>The property read \<^verbatim>\<open>claims[key]\<close> on a value that is not \<^verbatim>\<open>null\<close>.\<close>

fun claim :: "json \<Rightarrow> string \<Rightarrow> json option" where
  "claim (JObj props) key = map_of props key"
| "claim j key = None"

text \<open>JavaScript truthiness of a value that may be \<^verbatim>\<open>undefined\<close>, as \<^verbatim>\<open>||\<close> tests it.\<close>

fun js_truthy :: "json option \<Rightarrow> bool" where
  "js_truthy None = False"
| "js_truthy (Some JNull) = False"
| "js_truthy (Some (JBool b)) = b"
| "js_truthy (Some (JNum n)) = (n \<noteq> 0)"
| "js_truthy (Some (JStr s)) = (s \<noteq> [])"
| "js_truthy (Some j) = True"

text \<open>
  \<^verbatim>\<open>getUserInfoFromToken\<close>. The first property read throws a \<^verbatim>\<open>TypeError\<close> when the
  payload parsed to \<^verbatim>\<open>null\<close>.
\<close>

definition getUserInfoFromToken :: "(string \<Rightarrow> exn + json) \<Rightarrow> string \<Rightarrow> exn + UserInfo" where
  "getUserInfoFromToken decode token =
     (case parseJwt decode token of
        Inl e \<Rightarrow> Inl e
      | Inr JNull \<Rightarrow> Inl TypeError
      | Inr claims \<Rightarrow>
          Inr \<lparr>username =
                 (if js_truthy (claim claims ''cognito:username'')
                  then claim claims ''cognito:username'' else claim claims ''sub''),
               userId = claim claims ''sub'',
               email = claim claims ''email'',
               emailVerified = claim claims ''email_verified'',
               givenName = claim claims ''given_name'',
               familyName = claim claims ''family_name'',
               name = claim claims ''name''\<rparr>)"

text \<open>
  The same function as \<^verbatim>\<open>handleAuth\<close> takes it: the user, or nothing where it throws.
\<close>

definition user_of_token :: "(string \<Rightarrow> exn + json) \<Rightarrow> string \<Rightarrow> UserInfo option" where
  "user_of_token decode token =
     (case getUserInfoFromToken decode token of Inl e \<Rightarrow> None | Inr userInfo \<Rightarrow> Some userInfo)"

section \<open>\<^verbatim>\<open>App.tsx\<close>: retry\<close>



section \<open>Runs and interleavings\<close>

text \<open>A run has ended when \<^verbatim>\<open>handleAuth\<close> has returned or its promise has rejected.\<close>

fun terminal :: "pc \<Rightarrow> bool" where
  "terminal Finished = True"
| "terminal (Rejected e) = True"
| "terminal p = False"

text \<open>
  A single run in an arbitrary environment. Each item of the script is one wake-up: the
  time it happens at, the input, and what the rest of the page has done to the shared
  world since the run was suspended. The result is where the run stands, the effects
  it produced in order, and the world it leaves.
\<close>

fun run ::
  "(string \<Rightarrow> UserInfo option) \<Rightarrow> (int \<times> input \<times> (world \<Rightarrow> world)) list \<Rightarrow> pc \<Rightarrow> world
     \<Rightarrow> pc \<times> event list \<times> world" where
  "run g [] p w = (p, [], w)"
| "run g ((now, i, env) # rest) p w =
     (if terminal p then (p, [], w)
      else case handleAuth g now p i (env w) of
             (p1, evs1, w1) \<Rightarrow>
               (case run g rest p1 w1 of (p2, evs2, w2) \<Rightarrow> (p2, evs1 @ evs2, w2)))"

text \<open>
  The script of a poller: timers firing at given times, each finding the world the
  environment has made by then.
\<close>

definition timer_script :: "(int \<times> world) list \<Rightarrow> (int \<times> input \<times> (world \<Rightarrow> world)) list" where
  "timer_script obs = map (\<lambda>(now, w). (now, TimerFired, \<lambda>_. w)) obs"

fun is_TokenRequest :: "event \<Rightarrow> bool" where
  "is_TokenRequest (TokenRequest c v) = True"
| "is_TokenRequest e = False"

fun is_SetTimeout :: "event \<Rightarrow> bool" where
  "is_SetTimeout (SetTimeout ms) = True"
| "is_SetTimeout e = False"

text \<open>The run has claimed the exchange and has not yet seen how it ended.\<close>

fun exchanging :: "pc \<Rightarrow> bool" where
  "exchanging AwaitTokenFetch = True"
| "exchanging AwaitTokenJson = True"
| "exchanging p = False"

text \<open>The run is inside the loop of \<^verbatim>\<open>waitForTokens\<close>.\<close>

fun polling :: "pc \<Rightarrow> bool" where
  "polling (AwaitPollTimer i) = True"
| "polling p = False"

text \<open>
  Several runs of \<^verbatim>\<open>handleAuth\<close> on one page. A schedule wakes run \<open>k\<close> at a time with
  an input; the runs share the world and nothing else.
\<close>

fun sched_step ::
  "(string \<Rightarrow> UserInfo option) \<Rightarrow> nat \<times> int \<times> input \<Rightarrow> pc list \<times> world \<Rightarrow> pc list \<times> world" where
  "sched_step g (k, now, i) (pcs, w) =
     (if k < length pcs then
        (case handleAuth g now (pcs ! k) i w of (p, evs, w1) \<Rightarrow> (pcs[k := p], w1))
      else (pcs, w))"

text \<open>
  The ownership discipline, checked along a schedule. \<open>owner\<close> is the run that set the
  lock and has held it since. A step sets the lock when it finds it unset and leaves it
  set, and clears it the other way round. The discipline holds when every step that
  clears the lock is a step of its owner.
\<close>

fun lock_cleared_only_by_owner ::
  "(string \<Rightarrow> UserInfo option) \<Rightarrow> (nat \<times> int \<times> input) list \<Rightarrow> nat option \<Rightarrow> pc list \<times> world \<Rightarrow> bool" where
  "lock_cleared_only_by_owner g [] owner cfg = True"
| "lock_cleared_only_by_owner g ((k, now, i) # rest) owner cfg =
     (let cfg1 = sched_step g (k, now, i) cfg;
          held = isExchangeInProgress (snd cfg);
          held1 = isExchangeInProgress (snd cfg1)
      in if held \<and> \<not> held1 then
           owner = Some k \<and> lock_cleared_only_by_owner g rest None cfg1
         else if \<not> held \<and> held1 then lock_cleared_only_by_owner g rest (Some k) cfg1
         else lock_cleared_only_by_owner g rest owner cfg1)"

text \<open>A schedule run to its end.\<close>

fun run_schedule ::
  "(string \<Rightarrow> UserInfo option) \<Rightarrow> (nat \<times> int \<times> input) list \<Rightarrow> pc list \<times> world \<Rightarrow> pc list \<times> world" where
  "run_schedule g [] cfg = cfg"
| "run_schedule g (s # rest) cfg = run_schedule g rest (sched_step g s cfg)"

text \<open>
  Two runs on one page, the second mounted while the first waits for the token endpoint,
  which takes more than five seconds to answer: run 0 begins, run 1 begins, and the timer
  of run 1 fires 50 times, every 100 ms.
\<close>

definition timeout_schedule :: "(nat \<times> int \<times> input) list" where
  "timeout_schedule =
     [(0, 0, Begin), (1, 0, Begin)] @ map (\<lambda>n. (1, 100 * (int n + 1), TimerFired)) [0..<50]"

section \<open>The account-status mapping, in the words of the specification\<close>

text \<open>
  The response body is JSON with a \<^verbatim>\<open>code\<close> member equal to
  \<^verbatim>\<open>"ACCOUNT_DESACTIVATED"\<close>.
\<close>

definition has_deactivation_code :: "json option \<Rightarrow> bool" where
  "has_deactivation_code body =
     (case body of
        Some (JObj props) \<Rightarrow> map_of props ''code'' = Some (JStr ''ACCOUNT_DESACTIVATED'')
      | _ \<Rightarrow> False)"

section \<open>Sample pages\<close>

text \<open>
  The page as the identity provider redirects back to it: \<^verbatim>\<open>?code=abc&state=\<close>\<open>returned\<close>
  in the URL, a verifier and the state \<^verbatim>\<open>xyz\<close> in the session store.
\<close>

definition callback_page :: "string \<Rightarrow> world" where
  "callback_page returned =
     (fresh_page [(''code'', ''abc''), (''state'', returned)])
       \<lparr>ss_verifier := Some ''verifier'', ss_state := Some ''xyz''\<rparr>"

definition no_user :: "string \<Rightarrow> UserInfo option" where
  "no_user token = None"

text \<open>
  An identity token whose payload segment is the base64url of \<^verbatim>\<open>{"sub":"u1"}\<close> (and
  whose header segment is that of \<^verbatim>\<open>{"alg":"none"}\<close>), and what the browser makes of
  that segment. No other segment is decoded in what follows.
\<close>

definition sample_jwt :: string where
  "sample_jwt = ''eyJhbGciOiJub25lIn0.eyJzdWIiOiJ1MSJ9.sig''"

definition sample_decode :: "string \<Rightarrow> exn + json" where
  "sample_decode base64Url =
     (if base64Url = ''eyJzdWIiOiJ1MSJ9'' then Inr (JObj [(''sub'', JStr ''u1'')])
      else Inl SyntaxError)"

text \<open>A stored token set with that identity token, and one whose identity token has no dot.\<close>

definition sample_tokens :: "int \<Rightarrow> StoredTokens" where
  "sample_tokens expiry =
     \<lparr>accessToken = ''a'', idToken = sample_jwt, refreshToken = ''r'', expiresAt = expiry\<rparr>"

definition undecodable_tokens :: "int \<Rightarrow> StoredTokens" where
  "undecodable_tokens expiry =
     \<lparr>accessToken = ''a'', idToken = ''i'', refreshToken = ''r'', expiresAt = expiry\<rparr>"

section \<open>Vocabulary of the statements\<close>

text \<open>
  JavaScript truthiness of what \<^verbatim>\<open>URLSearchParams.get\<close> answers: neither
  \<^verbatim>\<open>null\<close> nor the empty string.
\<close>

definition truthy :: "string option \<Rightarrow> bool" where
  "truthy v = (case v of None \<Rightarrow> False | Some s \<Rightarrow> s \<noteq> [])"

section \<open>Basic facts\<close>

lemma handleAuth_terminal: "terminal p \<Longrightarrow> handleAuth g now p i w = (p, [], w)"
  by (cases p; cases i) simp_all

lemma run_terminal: "terminal p \<Longrightarrow> run g script p w = (p, [], w)"
  by (cases script) auto

lemma getAuthorizationCode_keeps:
  "ss_state (snd (getAuthorizationCode w)) = ss_state w"
  "ss_verifier (snd (getAuthorizationCode w)) = ss_verifier w"
  "ss_exchange (snd (getAuthorizationCode w)) = ss_exchange w"
  "ls_tokens (snd (getAuthorizationCode w)) = ls_tokens w"
  "user (snd (getAuthorizationCode w)) = user w"
  "userStatus (snd (getAuthorizationCode w)) = userStatus w"
  "loading (snd (getAuthorizationCode w)) = loading w"
  "history_length (snd (getAuthorizationCode w)) = history_length w"
  by (simp_all add: getAuthorizationCode_def Let_def split: option.splits)

lemma callback_page_code:
  "fst (getAuthorizationCode (callback_page r)) =
     (if r = [] then None else Some \<lparr>code = ''abc'', state = r\<rparr>)"
  by (simp add: getAuthorizationCode_def callback_page_def fresh_page_def params_get_def)

lemma callback_page_fields:
  "ss_state (callback_page r) = Some ''xyz''"
  "ss_verifier (callback_page r) = Some ''verifier''"
  "ss_exchange (callback_page r) = None"
  "ss_pending_code (callback_page r) = None"
  "ls_tokens (callback_page r) = None"
  by (simp_all add: callback_page_def fresh_page_def)

lemma checkUserStatus_log_no_token_request:
  "filter is_TokenRequest (checkUserStatus_log r) = []"
  by (cases r) (simp_all add: checkUserStatus_log_def)

lemma split_on_absent: "c \<notin> set xs \<Longrightarrow> split_on c xs = [xs]"
  by (induction xs) auto

text \<open>An identity token without a dot decodes to nothing, whatever the browser's part does.\<close>

lemma user_of_token_no_dot: "CHR ''.'' \<notin> set token \<Longrightarrow> user_of_token decode token = None"
  by (simp add: user_of_token_def getUserInfoFromToken_def parseJwt_def split_on_absent)

lemma sample_jwt_user:
  "user_of_token sample_decode sample_jwt =
     Some \<lparr>username = Some (JStr ''u1''), userId = Some (JStr ''u1''), email = None,
           emailVerified = None, givenName = None, familyName = None, name = None\<rparr>"
  by (simp add: user_of_token_def getUserInfoFromToken_def parseJwt_def sample_jwt_def
      sample_decode_def)

text \<open>The step taken when the state that came back is not the stored one.\<close>

lemma mismatch_step:
  assumes "fst (getAuthorizationCode w) = Some authCode"
    and "ss_state w \<noteq> Some (state authCode)"
  shows "handleAuth g now Start Begin w =
    (Finished, [ConsoleError ''Invalid OAuth state''],
       (clearAuthorizationCode (snd (getAuthorizationCode w)))\<lparr>loading := False\<rparr>)"
  using assms getAuthorizationCode_keeps(1) [of w]
  by (cases "getAuthorizationCode w") (simp add: handleAuth_begin_def validateState_def)

section \<open>State mismatch\<close>

text \<open>
  C1. A run of the initialisation that finds a pending callback whose returned state is
  not exactly the stored anti-CSRF state (a missing stored state included) never sends a
  request to the token endpoint, whatever wakes it afterwards and whatever the rest of the
  page does in between.
\<close>

theorem csrf_mismatch_never_calls_token_endpoint:
  assumes "fst (getAuthorizationCode (env w)) = Some authCode"
    and "ss_state (env w) \<noteq> Some (state authCode)"
  shows "\<forall>e \<in> set (fst (snd (run g ((now, Begin, env) # rest) Start w))). \<not> is_TokenRequest e"
proof -
  have "handleAuth g now Start Begin (env w) =
      (Finished, [ConsoleError ''Invalid OAuth state''],
       (clearAuthorizationCode (snd (getAuthorizationCode (env w))))\<lparr>loading := False\<rparr>)"
    using mismatch_step [OF assms] .
  then show ?thesis by (simp add: run_terminal)
qed

text \<open>The run on \<^verbatim>\<open>?code=abc&state=wrong\<close> with the stored state \<^verbatim>\<open>xyz\<close>.\<close>

theorem csrf_mismatch_never_calls_token_endpoint_witness:
  "fst (getAuthorizationCode (callback_page ''wrong'')) = Some \<lparr>code = ''abc'', state = ''wrong''\<rparr>
   \<and> ss_state (callback_page ''wrong'') \<noteq> Some ''wrong''
   \<and> filter is_TokenRequest
         (fst (snd (run no_user [(0, Begin, \<lambda>w. w)] Start (callback_page ''wrong'')))) = []"
proof -
  have a: "fst (getAuthorizationCode (callback_page ''wrong'')) = Some \<lparr>code = ''abc'', state = ''wrong''\<rparr>"
    by (simp add: callback_page_code)
  have b: "ss_state (callback_page ''wrong'') \<noteq> Some (state \<lparr>code = ''abc'', state = ''wrong''\<rparr>)"
    by (simp add: callback_page_fields)
  show ?thesis
    using a b csrf_mismatch_never_calls_token_endpoint
      [of "\<lambda>w. w" "callback_page ''wrong''" "\<lparr>code = ''abc'', state = ''wrong''\<rparr>" no_user 0 "[]"]
    by (simp only: filter_empty_conv) simp
qed

text \<open>
  C3, as the code has it. When the initialisation finds a pending callback whose state
  fails validation, the run ends at once, having logged the failure and sent nothing,
  with the pending callback and the exchange lock removed from the session store and
  \<^verbatim>\<open>loading\<close> switched off. The verifier and the state of the PKCE session stay in the
  store as they were.
\<close>

theorem csrf_mismatch_clears_pending_only:
  assumes "fst (getAuthorizationCode w) = Some authCode"
    and "ss_state w \<noteq> Some (state authCode)"
  shows "\<exists>w'. handleAuth g now Start Begin w = (Finished, [ConsoleError ''Invalid OAuth state''], w')
     \<and> ss_pending_code w' = None \<and> ss_exchange w' = None \<and> loading w' = False
     \<and> ss_verifier w' = ss_verifier w \<and> ss_state w' = ss_state w"
  using mismatch_step [OF assms, of g now]
  by (simp add: clearAuthorizationCode_def getAuthorizationCode_keeps)

text \<open>The same run, on \<^verbatim>\<open>?code=abc&state=wrong\<close> with the stored state \<^verbatim>\<open>xyz\<close>.\<close>

theorem csrf_mismatch_clears_pending_only_witness:
  "fst (getAuthorizationCode (callback_page ''wrong'')) = Some \<lparr>code = ''abc'', state = ''wrong''\<rparr>
   \<and> ss_state (callback_page ''wrong'') \<noteq> Some ''wrong''
   \<and> (\<exists>w'. handleAuth no_user 0 Start Begin (callback_page ''wrong'') =
          (Finished, [ConsoleError ''Invalid OAuth state''], w')
        \<and> ss_pending_code w' = None \<and> ss_exchange w' = None \<and> loading w' = False
        \<and> ss_verifier w' = Some ''verifier'' \<and> ss_state w' = Some ''xyz'')"
proof -
  have a: "fst (getAuthorizationCode (callback_page ''wrong'')) = Some \<lparr>code = ''abc'', state = ''wrong''\<rparr>"
    by (simp add: callback_page_code)
  have b: "ss_state (callback_page ''wrong'') \<noteq> Some (state \<lparr>code = ''abc'', state = ''wrong''\<rparr>)"
    by (simp add: callback_page_fields)
  show ?thesis
    using a b csrf_mismatch_clears_pending_only [OF a b, of no_user 0]
    by (simp add: callback_page_fields)
qed

text \<open>
  On \<^verbatim>\<open>?code=abc&state=wrong\<close> with the stored state \<^verbatim>\<open>xyz\<close> the run ends with the
  status still \<^verbatim>\<open>'loading'\<close>, not \<^verbatim>\<open>'error'\<close>, and with the verifier and the state
  still in the session store.
\<close>

theorem csrf_mismatch_status_and_session_counterexample:
  "fst (handleAuth no_user 0 Start Begin (callback_page ''wrong'')) = Finished
   \<and> userStatus (snd (snd (handleAuth no_user 0 Start Begin (callback_page ''wrong'')))) = S_loading
   \<and> ss_verifier (snd (snd (handleAuth no_user 0 Start Begin (callback_page ''wrong'')))) = Some ''verifier''
   \<and> ss_state (snd (snd (handleAuth no_user 0 Start Begin (callback_page ''wrong'')))) = Some ''xyz''"
  by (simp add: handleAuth_begin_def getAuthorizationCode_def callback_page_def fresh_page_def
      params_get_def params_delete_def validateState_def clearAuthorizationCode_def)

section \<open>Account status\<close>

lemma checkUserStatus_403:
  "checkUserStatus (StatusFetchResponse 403 body) =
     (if has_deactivation_code body then S_deactivated else S_pending)"
proof (cases body)
  case None
  then show ?thesis
    by (simp add: checkUserStatus_def response_json_def has_deactivation_code_def)
next
  case (Some b)
  then show ?thesis
    by (cases b) (simp_all add: checkUserStatus_def response_json_def has_deactivation_code_def)
qed

text \<open>
  C2. \<^verbatim>\<open>checkUserStatus\<close> maps a response with status 200 to \<^verbatim>\<open>approved\<close>; a 403 whose
  JSON body has the code \<^verbatim>\<open>ACCOUNT_DESACTIVATED\<close> to \<^verbatim>\<open>deactivated\<close>; a 403 with any
  other body, or one that does not parse, to \<^verbatim>\<open>pending\<close>; every other status, and a
  failed request, to \<^verbatim>\<open>error\<close>.
\<close>

theorem checkUserStatus_classification:
  "checkUserStatus (StatusFetchResponse 200 body) = S_approved
   \<and> (has_deactivation_code body \<longrightarrow>
        checkUserStatus (StatusFetchResponse 403 body) = S_deactivated)
   \<and> (\<not> has_deactivation_code body \<longrightarrow>
        checkUserStatus (StatusFetchResponse 403 body) = S_pending)
   \<and> (status \<noteq> 200 \<and> status \<noteq> 403 \<longrightarrow>
        checkUserStatus (StatusFetchResponse status body) = S_error)
   \<and> checkUserStatus StatusFetchRejected = S_error"
  by (simp add: checkUserStatus_403) (simp add: checkUserStatus_def)

text \<open>
  The mapping on a deactivation body, on another code, on a body that does not parse, on
  the body \<^verbatim>\<open>null\<close>, on a 500 and on a failed request.
\<close>

theorem checkUserStatus_classification_witness:
  "checkUserStatus (StatusFetchResponse 200 None) = S_approved
   \<and> has_deactivation_code (Some (JObj [(''code'', JStr ''ACCOUNT_DESACTIVATED'')]))
   \<and> checkUserStatus
        (StatusFetchResponse 403 (Some (JObj [(''code'', JStr ''ACCOUNT_DESACTIVATED'')]))) = S_deactivated
   \<and> \<not> has_deactivation_code (Some (JObj [(''code'', JStr ''OTHER'')]))
   \<and> checkUserStatus (StatusFetchResponse 403 (Some (JObj [(''code'', JStr ''OTHER'')]))) = S_pending
   \<and> checkUserStatus (StatusFetchResponse 403 None) = S_pending
   \<and> checkUserStatus (StatusFetchResponse 403 (Some JNull)) = S_pending
   \<and> checkUserStatus (StatusFetchResponse 500 None) = S_error
   \<and> checkUserStatus StatusFetchRejected = S_error"
  using checkUserStatus_classification [of None 500]
    checkUserStatus_classification [of "Some (JObj [(''code'', JStr ''ACCOUNT_DESACTIVATED'')])" 500]
    checkUserStatus_classification [of "Some (JObj [(''code'', JStr ''OTHER'')])" 500]
    checkUserStatus_classification [of "Some JNull" 500]
  by (simp add: has_deactivation_code_def)

section \<open>State validation\<close>

text \<open>
  C10. With no anti-CSRF state in the session store \<^verbatim>\<open>validateState\<close> answers
  \<^verbatim>\<open>false\<close> for every returned state, so a callback that arrives without an active
  PKCE session never validates: the initialisation that finds it ends on the
  state-mismatch path.
\<close>

theorem validateState_without_stored_state:
  assumes "ss_state w = None"
  shows "validateState returnedState w = False
     \<and> (\<forall>authCode. fst (getAuthorizationCode w) = Some authCode \<longrightarrow>
          handleAuth g now Start Begin w =
            (Finished, [ConsoleError ''Invalid OAuth state''],
             (clearAuthorizationCode (snd (getAuthorizationCode w)))\<lparr>loading := False\<rparr>))"
  using assms mismatch_step [of w _ g now] by (simp add: validateState_def)

text \<open>A callback \<^verbatim>\<open>?code=abc&state=xyz\<close> on a page whose session store is empty.\<close>

theorem validateState_without_stored_state_witness:
  "ss_state (fresh_page [(''code'', ''abc''), (''state'', ''xyz'')]) = None
   \<and> validateState ''xyz'' (fresh_page [(''code'', ''abc''), (''state'', ''xyz'')]) = False
   \<and> fst (handleAuth no_user 0 Start Begin (fresh_page [(''code'', ''abc''), (''state'', ''xyz'')]))
       = Finished"
proof -
  have a: "ss_state (fresh_page [(''code'', ''abc''), (''state'', ''xyz'')]) = None"
    by (simp add: fresh_page_def)
  have b: "fst (getAuthorizationCode (fresh_page [(''code'', ''abc''), (''state'', ''xyz'')])) =
      Some \<lparr>code = ''abc'', state = ''xyz''\<rparr>"
    by (simp add: getAuthorizationCode_def fresh_page_def params_get_def)
  show ?thesis
    using a b validateState_without_stored_state [OF a, of "''xyz''" no_user 0]
    by simp
qed

section \<open>Callback resolution\<close>

lemma params_get_delete:
  "params_get (params_delete ps k) k' = (if k' = k then None else params_get ps k')"
  by (induction ps) (auto simp: params_get_def params_delete_def)

lemma getAuthorizationCode_from_url:
  assumes "params_get (search w) ''code'' = Some c" and "c \<noteq> []"
    and "params_get (search w) ''state'' = Some s" and "s \<noteq> []"
  shows "getAuthorizationCode w =
     (Some \<lparr>code = c, state = s\<rparr>,
      w\<lparr>ss_pending_code := Some \<lparr>code = c, state = s\<rparr>,
        search := params_delete (params_delete (search w) ''code'') ''state''\<rparr>)"
  using assms by (simp add: getAuthorizationCode_def)

lemma getAuthorizationCode_from_store:
  assumes "\<not> (truthy (params_get (search w) ''code'') \<and> truthy (params_get (search w) ''state''))"
  shows "getAuthorizationCode w = (ss_pending_code w, w)"
  using assms by (auto simp: getAuthorizationCode_def truthy_def split: option.splits)

text \<open>
  C6, as the code has it. When the URL carries both \<^verbatim>\<open>code\<close> and \<^verbatim>\<open>state\<close> with
  non-empty values, \<^verbatim>\<open>getAuthorizationCode\<close> stores the pair as the pending callback,
  removes every \<^verbatim>\<open>code\<close> and \<^verbatim>\<open>state\<close> parameter from the URL and nothing else,
  leaves the length of the history as it is, and returns the pair; a second call, on the
  URL as the first one left it, returns the same pair and changes nothing. When one of
  the two is missing or empty, it returns what the session store holds as pending
  callback, which is nothing when the store holds none, and changes nothing.
\<close>

theorem getAuthorizationCode_resolution:
  "(params_get (search w) ''code'' = Some c \<and> c \<noteq> [] \<and>
    params_get (search w) ''state'' = Some s \<and> s \<noteq> [] \<longrightarrow>
      (\<exists>w1. getAuthorizationCode w = (Some \<lparr>code = c, state = s\<rparr>, w1)
         \<and> ss_pending_code w1 = Some \<lparr>code = c, state = s\<rparr>
         \<and> search w1 = filter (\<lambda>p. fst p \<noteq> ''code'' \<and> fst p \<noteq> ''state'') (search w)
         \<and> params_get (search w1) ''code'' = None
         \<and> params_get (search w1) ''state'' = None
         \<and> history_length w1 = history_length w
         \<and> getAuthorizationCode w1 = (Some \<lparr>code = c, state = s\<rparr>, w1)))
   \<and> (\<not> (truthy (params_get (search w) ''code'') \<and> truthy (params_get (search w) ''state'')) \<longrightarrow>
        getAuthorizationCode w = (ss_pending_code w, w))"
proof (intro conjI impI)
  assume a: "params_get (search w) ''code'' = Some c \<and> c \<noteq> [] \<and>
    params_get (search w) ''state'' = Some s \<and> s \<noteq> []"
  define w1 where "w1 = w\<lparr>ss_pending_code := Some \<lparr>code = c, state = s\<rparr>,
        search := params_delete (params_delete (search w) ''code'') ''state''\<rparr>"
  have first: "getAuthorizationCode w = (Some \<lparr>code = c, state = s\<rparr>, w1)"
    using a getAuthorizationCode_from_url [of w c s] by (simp add: w1_def)
  have gone: "params_get (search w1) ''code'' = None" "params_get (search w1) ''state'' = None"
    by (simp_all add: w1_def params_get_delete)
  have "\<not> (truthy (params_get (search w1) ''code'') \<and> truthy (params_get (search w1) ''state''))"
    by (simp add: gone truthy_def)
  then have again: "getAuthorizationCode w1 = (Some \<lparr>code = c, state = s\<rparr>, w1)"
    using getAuthorizationCode_from_store [of w1] by (simp add: w1_def)
  have stripped: "search w1 = filter (\<lambda>p. fst p \<noteq> ''code'' \<and> fst p \<noteq> ''state'') (search w)"
    by (auto simp add: w1_def params_delete_def intro: filter_cong)
  show "\<exists>w1. getAuthorizationCode w = (Some \<lparr>code = c, state = s\<rparr>, w1)
         \<and> ss_pending_code w1 = Some \<lparr>code = c, state = s\<rparr>
         \<and> search w1 = filter (\<lambda>p. fst p \<noteq> ''code'' \<and> fst p \<noteq> ''state'') (search w)
         \<and> params_get (search w1) ''code'' = None
         \<and> params_get (search w1) ''state'' = None
         \<and> history_length w1 = history_length w
         \<and> getAuthorizationCode w1 = (Some \<lparr>code = c, state = s\<rparr>, w1)"
    using first gone again stripped by (intro exI [of _ w1]) (simp add: w1_def)
next
  assume "\<not> (truthy (params_get (search w) ''code'') \<and> truthy (params_get (search w) ''state''))"
  then show "getAuthorizationCode w = (ss_pending_code w, w)"
    by (rule getAuthorizationCode_from_store)
qed

text \<open>
  The callback \<^verbatim>\<open>?code=abc&state=xyz\<close>, and a page that is not a callback and has
  nothing pending.
\<close>

theorem getAuthorizationCode_resolution_witness:
  "(\<exists>w1. getAuthorizationCode (callback_page ''xyz'') = (Some \<lparr>code = ''abc'', state = ''xyz''\<rparr>, w1)
         \<and> ss_pending_code w1 = Some \<lparr>code = ''abc'', state = ''xyz''\<rparr>
         \<and> search w1 = []
         \<and> history_length w1 = 1
         \<and> getAuthorizationCode w1 = (Some \<lparr>code = ''abc'', state = ''xyz''\<rparr>, w1))
   \<and> getAuthorizationCode (fresh_page [(''lang'', ''fr'')]) = (None, fresh_page [(''lang'', ''fr'')])"
  using getAuthorizationCode_resolution [of "callback_page ''xyz''" "''abc''" "''xyz''"]
    getAuthorizationCode_resolution [of "fresh_page [(''lang'', ''fr'')]" "''abc''" "''xyz''"]
  by (simp add: callback_page_def fresh_page_def params_get_def truthy_def) blast

text \<open>
  On \<^verbatim>\<open>?code=&state=xyz\<close> both parameters are in the URL, and nothing is stored,
  stripped or returned.
\<close>

theorem getAuthorizationCode_empty_parameter_counterexample:
  "params_get (search (fresh_page [(''code'', ''''), (''state'', ''xyz'')])) ''code'' = Some ''''
   \<and> params_get (search (fresh_page [(''code'', ''''), (''state'', ''xyz'')])) ''state'' = Some ''xyz''
   \<and> getAuthorizationCode (fresh_page [(''code'', ''''), (''state'', ''xyz'')]) =
       (None, fresh_page [(''code'', ''''), (''state'', ''xyz'')])"
  by (simp add: getAuthorizationCode_def fresh_page_def params_get_def)

section \<open>Steps of the callback branch\<close>

lemma getAuthorizationCode_absent:
  "fst (getAuthorizationCode w) = None \<Longrightarrow> getAuthorizationCode w = (None, w)"
  by (auto simp: getAuthorizationCode_def Let_def split: option.splits if_splits)

lemma valid_tokens_getAuthorizationCode:
  "valid_tokens now (snd (getAuthorizationCode w)) = valid_tokens now w"
  by (simp add: valid_tokens_def getAuthorizationCode_keeps)

text \<open>The first step of a run that found a callback with the right state.\<close>

lemma callback_step:
  assumes "fst (getAuthorizationCode w) = Some authCode" and "ss_state w = Some (state authCode)"
  shows "handleAuth g now Start Begin w =
     (let w1 = snd (getAuthorizationCode w)
      in case valid_tokens now w of
           Some tokens \<Rightarrow> use_stored_tokens g tokens AwaitCachedStatus w1
         | None \<Rightarrow>
             if isExchangeInProgress w then (AwaitPollTimer 0, [SetTimeout 100], w1)
             else (case exchangeCodeForTokens_begin (code authCode) (markExchangeInProgress w1) of
                     Inl e \<Rightarrow> exchange_failed (markExchangeInProgress w1)
                   | Inr request \<Rightarrow> (AwaitTokenFetch, [request], markExchangeInProgress w1)))"
  using assms getAuthorizationCode_keeps(1,3) [of w] valid_tokens_getAuthorizationCode [of now w]
  by (cases "getAuthorizationCode w")
     (simp add: handleAuth_begin_def validateState_def isExchangeInProgress_def Let_def
           split: option.splits)

text \<open>The token request is sent by the first step of a run or not at all.\<close>

lemma token_request_only_at_start:
  assumes "p \<noteq> Start" and "handleAuth g now p i w = (p', evs, w')"
  shows "p' \<noteq> Start \<and> filter is_TokenRequest evs = []"
proof (cases p)
  case (AwaitPollTimer k)
  with assms show ?thesis
    by (cases i)
       (auto simp: poll_step_def use_stored_tokens_def poll_failed_def Let_def
             split: option.splits if_splits)
next
  case AwaitTokenFetch
  with assms show ?thesis
    by (cases i)
       (auto simp: exchangeCodeForTokens_response_def exchange_failed_def
             split: token_fetch.splits if_splits)
next
  case AwaitTokenJson
  with assms show ?thesis
    by (cases i)
       (auto simp: exchangeCodeForTokens_json_def exchange_failed_def store_tokens_def Let_def
             split: option.splits)
qed (use assms in
    \<open>cases i; auto simp: publish_status_def checkUserStatus_log_no_token_request\<close>)+

lemma run_token_request_only_at_start:
  "p \<noteq> Start \<Longrightarrow> filter is_TokenRequest (fst (snd (run g script p w))) = []"
proof (induction script arbitrary: p w)
  case Nil
  then show ?case by simp
next
  case (Cons item script)
  obtain now i env where item: "item = (now, i, env)" by (cases item) auto
  obtain p1 evs1 w1 where s: "handleAuth g now p i (env w) = (p1, evs1, w1)"
    by (cases "handleAuth g now p i (env w)") auto
  have a: "p1 \<noteq> Start" "filter is_TokenRequest evs1 = []"
    using token_request_only_at_start [OF Cons.prems s] by simp_all
  obtain p2 evs2 w2 where r: "run g script p1 w1 = (p2, evs2, w2)"
    by (cases "run g script p1 w1") auto
  have "filter is_TokenRequest evs2 = []" using Cons.IH [OF a(1), of w1] r by simp
  then show ?case using item s r a by simp
qed

section \<open>Cached tokens\<close>

text \<open>
  C9, as the code has it. When the initialisation finds a pending callback with a valid
  state and the token cache holds a token set that has not expired, the run never sends
  a token request and its first step clears the pending callback. When the identity token
  of the cached set decodes, that same step publishes the user and sends the status
  request with the cached identity token, and the answer is then classified and
  published.
\<close>

theorem cached_tokens_skip_exchange:
  assumes "fst (getAuthorizationCode (env w)) = Some authCode"
    and "ss_state (env w) = Some (state authCode)"
    and "ls_tokens (env w) = Some tokens"
    and "expiresAt tokens > now"
  shows "filter is_TokenRequest (fst (snd (run g ((now, Begin, env) # rest) Start w))) = []
     \<and> ss_pending_code (snd (snd (handleAuth g now Start Begin (env w)))) = None
     \<and> (\<forall>userInfo. g (idToken tokens) = Some userInfo \<longrightarrow>
          (\<exists>w1. handleAuth g now Start Begin (env w) =
                  (AwaitCachedStatus, [StatusRequest (idToken tokens)], w1)
             \<and> user w1 = Some userInfo
             \<and> (\<forall>now1 r w2. handleAuth g now1 AwaitCachedStatus (StatusFetched r) w2 =
                  (Finished, checkUserStatus_log r,
                   w2\<lparr>userStatus := checkUserStatus r, loading := False\<rparr>))))"
proof -
  have v: "valid_tokens now (env w) = Some tokens"
    using assms(3,4) by (simp add: valid_tokens_def)
  have step: "handleAuth g now Start Begin (env w) =
      use_stored_tokens g tokens AwaitCachedStatus (snd (getAuthorizationCode (env w)))"
    using callback_step [OF assms(1,2), of g now] v by (simp add: Let_def)
  obtain p1 evs1 w1 where s: "handleAuth g now Start Begin (env w) = (p1, evs1, w1)"
    by (cases "handleAuth g now Start Begin (env w)") auto
  have p1: "p1 \<noteq> Start" "filter is_TokenRequest evs1 = []" "ss_pending_code w1 = None"
    using s step
    by (auto simp: use_stored_tokens_def clearAuthorizationCode_def Let_def split: option.splits)
  obtain p2 evs2 w2 where r: "run g rest p1 w1 = (p2, evs2, w2)"
    by (cases "run g rest p1 w1") auto
  have "filter is_TokenRequest evs2 = []"
    using run_token_request_only_at_start [OF p1(1), of g rest w1] r by simp
  then have 1: "filter is_TokenRequest (fst (snd (run g ((now, Begin, env) # rest) Start w))) = []"
    using s r p1(2) by simp
  have 2: "ss_pending_code (snd (snd (handleAuth g now Start Begin (env w)))) = None"
    using s p1(3) by simp
  have 3: "\<exists>w1. handleAuth g now Start Begin (env w) =
                  (AwaitCachedStatus, [StatusRequest (idToken tokens)], w1)
             \<and> user w1 = Some userInfo
             \<and> (\<forall>now1 r w2. handleAuth g now1 AwaitCachedStatus (StatusFetched r) w2 =
                  (Finished, checkUserStatus_log r,
                   w2\<lparr>userStatus := checkUserStatus r, loading := False\<rparr>))"
    if "g (idToken tokens) = Some userInfo" for userInfo
    using that step by (simp add: use_stored_tokens_def Let_def publish_status_def)
  show ?thesis using 1 2 3 by blast
qed

text \<open>
  The callback \<^verbatim>\<open>?code=abc&state=xyz\<close> at time 2000 with a cached token set that
  expires at 5000 and whose identity token decodes to the user \<^verbatim>\<open>u1\<close>.
\<close>

theorem cached_tokens_skip_exchange_witness:
  "fst (getAuthorizationCode ((callback_page ''xyz'')\<lparr>ls_tokens := Some (sample_tokens 5000)\<rparr>)) =
      Some \<lparr>code = ''abc'', state = ''xyz''\<rparr>
   \<and> ss_state ((callback_page ''xyz'')\<lparr>ls_tokens := Some (sample_tokens 5000)\<rparr>) = Some ''xyz''
   \<and> expiresAt (sample_tokens 5000) > 2000
   \<and> user_of_token sample_decode (idToken (sample_tokens 5000)) \<noteq> None
   \<and> filter is_TokenRequest (fst (snd (run (user_of_token sample_decode)
        [(2000, Begin, \<lambda>w. w), (2100, StatusFetched (StatusFetchResponse 200 None), \<lambda>w. w)]
        Start ((callback_page ''xyz'')\<lparr>ls_tokens := Some (sample_tokens 5000)\<rparr>)))) = []
   \<and> ss_pending_code (snd (snd (handleAuth (user_of_token sample_decode) 2000 Start Begin
        ((callback_page ''xyz'')\<lparr>ls_tokens := Some (sample_tokens 5000)\<rparr>)))) = None
   \<and> (\<exists>w1. handleAuth (user_of_token sample_decode) 2000 Start Begin
              ((callback_page ''xyz'')\<lparr>ls_tokens := Some (sample_tokens 5000)\<rparr>) =
            (AwaitCachedStatus, [StatusRequest sample_jwt], w1))"
proof -
  let ?w = "(callback_page ''xyz'')\<lparr>ls_tokens := Some (sample_tokens 5000)\<rparr>"
  have a: "fst (getAuthorizationCode ((\<lambda>w. w) ?w)) = Some \<lparr>code = ''abc'', state = ''xyz''\<rparr>"
    by (simp add: getAuthorizationCode_def callback_page_def fresh_page_def params_get_def)
  have b: "ss_state ((\<lambda>w. w) ?w) = Some (state \<lparr>code = ''abc'', state = ''xyz''\<rparr>)"
    by (simp add: callback_page_def fresh_page_def)
  have c: "ls_tokens ((\<lambda>w. w) ?w) = Some (sample_tokens 5000)" by simp
  have d: "expiresAt (sample_tokens 5000) > 2000" by (simp add: sample_tokens_def)
  have i: "idToken (sample_tokens 5000) = sample_jwt" by (simp add: sample_tokens_def)
  have e: "user_of_token sample_decode (idToken (sample_tokens 5000)) =
      Some \<lparr>username = Some (JStr ''u1''), userId = Some (JStr ''u1''), email = None,
           emailVerified = None, givenName = None, familyName = None, name = None\<rparr>"
    by (simp add: i sample_jwt_user)
  show ?thesis
    using a b c d e
      cached_tokens_skip_exchange [where env = "\<lambda>w. w" and w = ?w and now = 2000
        and authCode = "\<lparr>code = ''abc'', state = ''xyz''\<rparr>" and tokens = "sample_tokens 5000"
        and g = "user_of_token sample_decode"
        and rest = "[(2100, StatusFetched (StatusFetchResponse 200 None), \<lambda>w. w)]"]
    by (simp add: i del: run.simps handleAuth.simps) blast
qed

text \<open>
  A token endpoint that answers with an identity token without a dot: the owner stores
  the token set before it decodes the token. On the next callback with a valid state,
  while that set has not expired, the first step clears the pending callback and then
  throws: the run is rejected, no status request is sent, and the page stays on
  \<^verbatim>\<open>loading\<close>.
\<close>

theorem undecodable_cached_tokens_counterexample:
  "ls_tokens (snd (snd (handleAuth (user_of_token sample_decode) 1400 AwaitTokenJson
        (TokenParsed (Some \<lparr>access_token = ''a'', id_token = ''i'', refresh_token = ''r'',
                            token_type = ''Bearer'', expires_in = 3600\<rparr>))
        (callback_page ''xyz'')))) = Some (undecodable_tokens 3601400)
   \<and> fst (getAuthorizationCode
        ((callback_page ''xyz'')\<lparr>ls_tokens := Some (undecodable_tokens 3601400)\<rparr>)) =
       Some \<lparr>code = ''abc'', state = ''xyz''\<rparr>
   \<and> validateState ''xyz'' ((callback_page ''xyz'')\<lparr>ls_tokens := Some (undecodable_tokens 3601400)\<rparr>)
   \<and> expiresAt (undecodable_tokens 3601400) > 2000
   \<and> fst (handleAuth (user_of_token sample_decode) 2000 Start Begin
        ((callback_page ''xyz'')\<lparr>ls_tokens := Some (undecodable_tokens 3601400)\<rparr>)) =
       Rejected TypeError
   \<and> fst (snd (handleAuth (user_of_token sample_decode) 2000 Start Begin
        ((callback_page ''xyz'')\<lparr>ls_tokens := Some (undecodable_tokens 3601400)\<rparr>))) = []
   \<and> ss_pending_code (snd (snd (handleAuth (user_of_token sample_decode) 2000 Start Begin
        ((callback_page ''xyz'')\<lparr>ls_tokens := Some (undecodable_tokens 3601400)\<rparr>)))) = None
   \<and> loading (snd (snd (handleAuth (user_of_token sample_decode) 2000 Start Begin
        ((callback_page ''xyz'')\<lparr>ls_tokens := Some (undecodable_tokens 3601400)\<rparr>)))) = True"
proof -
  have n: "user_of_token sample_decode ''i'' = None"
    by (simp add: user_of_token_no_dot)
  show ?thesis
    by (simp add: n handleAuth_begin_def getAuthorizationCode_def callback_page_def fresh_page_def
        params_get_def params_delete_def validateState_def valid_tokens_def
        undecodable_tokens_def use_stored_tokens_def clearAuthorizationCode_def
        exchangeCodeForTokens_json_def store_tokens_def exchange_failed_def Let_def)
qed

section \<open>Expiry of the stored tokens\<close>



lemma use_stored_tokens_events:
  "fst (snd (use_stored_tokens g tokens next w)) =
     (case g (idToken tokens) of None \<Rightarrow> [] | Some u \<Rightarrow> [StatusRequest (idToken tokens)])"
  by (simp add: use_stored_tokens_def Let_def split: option.splits)










section \<open>The token exchange\<close>

text \<open>
  C7. With no verifier in the session store \<^verbatim>\<open>exchangeCodeForTokens\<close> throws before
  any request is sent, and the run that called it ends with the status \<^verbatim>\<open>error\<close>,
  having sent nothing. A response that is not a success makes it throw with the response
  body in the message, and the run ends with the status \<^verbatim>\<open>error\<close>. On a success it
  removes the verifier and the state from the session store, and the caller stores the
  tokens with an expiry of the current time plus \<^verbatim>\<open>expires_in\<close> seconds, in
  milliseconds.
\<close>

theorem exchangeCodeForTokens_outcomes:
  "(ss_verifier w = None \<longrightarrow>
      exchangeCodeForTokens_begin c w = Inl (Error ''No code verifier found''))
   \<and> (ss_verifier w = None \<and> fst (getAuthorizationCode w) = Some authCode
        \<and> ss_state w = Some (state authCode) \<and> valid_tokens now w = None
        \<and> \<not> isExchangeInProgress w \<longrightarrow>
          fst (handleAuth g now Start Begin w) = Finished
        \<and> fst (snd (handleAuth g now Start Begin w)) = [ConsoleError ''Token exchange failed:'']
        \<and> userStatus (snd (snd (handleAuth g now Start Begin w))) = S_error)
   \<and> exchangeCodeForTokens_response (TokenFetchResponse False body) w =
        (Inl (Error (''Token exchange failed: '' @ body)), w)
   \<and> handleAuth g now AwaitTokenFetch (TokenFetched (TokenFetchResponse False body)) w =
        (Finished, [ConsoleError ''Token exchange failed:''],
         (clearAuthorizationCode w)\<lparr>userStatus := S_error, loading := False\<rparr>)
   \<and> exchangeCodeForTokens_response (TokenFetchResponse True body) w =
        (Inr (), w\<lparr>ss_verifier := None, ss_state := None\<rparr>)
   \<and> handleAuth g now AwaitTokenFetch (TokenFetched (TokenFetchResponse True body)) w =
        (AwaitTokenJson, [], w\<lparr>ss_verifier := None, ss_state := None\<rparr>)
   \<and> ls_tokens (snd (snd (handleAuth g now AwaitTokenJson (TokenParsed (Some tokens)) w))) =
        Some \<lparr>accessToken = access_token tokens, idToken = id_token tokens,
              refreshToken = refresh_token tokens,
              expiresAt = now + expires_in tokens * 1000\<rparr>"
proof (intro conjI impI)
  assume "ss_verifier w = None"
  then show "exchangeCodeForTokens_begin c w = Inl (Error ''No code verifier found'')"
    by (simp add: exchangeCodeForTokens_begin_def)
next
  assume a: "ss_verifier w = None \<and> fst (getAuthorizationCode w) = Some authCode
        \<and> ss_state w = Some (state authCode) \<and> valid_tokens now w = None
        \<and> \<not> isExchangeInProgress w"
  then have s: "handleAuth g now Start Begin w =
      exchange_failed (markExchangeInProgress (snd (getAuthorizationCode w)))"
    using callback_step [of w authCode g now]
    by (simp add: Let_def exchangeCodeForTokens_begin_def markExchangeInProgress_def
        getAuthorizationCode_keeps)
  show "fst (handleAuth g now Start Begin w) = Finished"
    "fst (snd (handleAuth g now Start Begin w)) = [ConsoleError ''Token exchange failed:'']"
    "userStatus (snd (snd (handleAuth g now Start Begin w))) = S_error"
    unfolding s by (simp_all add: exchange_failed_def)
next
  show "ls_tokens (snd (snd (handleAuth g now AwaitTokenJson (TokenParsed (Some tokens)) w))) =
        Some \<lparr>accessToken = access_token tokens, idToken = id_token tokens,
              refreshToken = refresh_token tokens,
              expiresAt = now + expires_in tokens * 1000\<rparr>"
    by (simp add: exchangeCodeForTokens_json_def store_tokens_def Let_def exchange_failed_def
        clearAuthorizationCode_def split: option.splits)
qed (simp_all add: exchangeCodeForTokens_response_def exchange_failed_def)

text \<open>The callback \<^verbatim>\<open>?code=abc&state=xyz\<close> on a page whose verifier is gone.\<close>

theorem exchangeCodeForTokens_outcomes_witness:
  "ss_verifier ((callback_page ''xyz'')\<lparr>ss_verifier := None\<rparr>) = None
   \<and> exchangeCodeForTokens_begin ''abc'' ((callback_page ''xyz'')\<lparr>ss_verifier := None\<rparr>) =
        Inl (Error ''No code verifier found'')
   \<and> fst (handleAuth no_user 2000 Start Begin ((callback_page ''xyz'')\<lparr>ss_verifier := None\<rparr>)) = Finished
   \<and> fst (snd (handleAuth no_user 2000 Start Begin ((callback_page ''xyz'')\<lparr>ss_verifier := None\<rparr>))) =
        [ConsoleError ''Token exchange failed:'']
   \<and> userStatus (snd (snd (handleAuth no_user 2000 Start Begin
        ((callback_page ''xyz'')\<lparr>ss_verifier := None\<rparr>)))) = S_error"
proof -
  let ?w = "(callback_page ''xyz'')\<lparr>ss_verifier := None\<rparr>"
  have a: "ss_verifier ?w = None" by simp
  have b: "fst (getAuthorizationCode ?w) = Some \<lparr>code = ''abc'', state = ''xyz''\<rparr>"
    by (simp add: getAuthorizationCode_def callback_page_def fresh_page_def params_get_def)
  have c: "ss_state ?w = Some (state \<lparr>code = ''abc'', state = ''xyz''\<rparr>)"
    by (simp add: callback_page_def fresh_page_def)
  have d: "valid_tokens 2000 ?w = None"
    by (simp add: valid_tokens_def callback_page_def fresh_page_def)
  have e: "\<not> isExchangeInProgress ?w"
    by (simp add: isExchangeInProgress_def callback_page_def fresh_page_def)
  show ?thesis
    using a b c d e
      exchangeCodeForTokens_outcomes [of ?w "''abc''" "\<lparr>code = ''abc'', state = ''xyz''\<rparr>" 2000 no_user]
    by simp
qed

section \<open>The poll loop\<close>

text \<open>Once the loop is left, further timers find nobody waiting for them.\<close>

lemma run_timers_idle:
  "p = AwaitPollStatus \<or> terminal p \<Longrightarrow>
     fst (run g (timer_script obs) p w) = p \<and> fst (snd (run g (timer_script obs) p w)) = []"
proof (induction obs arbitrary: w)
  case Nil
  then show ?case by (simp add: timer_script_def)
next
  case (Cons ob obs)
  obtain now wk where ob: "ob = (now, wk)" by (cases ob) auto
  show ?case
  proof (cases "terminal p")
    case True
    then show ?thesis by (simp add: run_terminal)
  next
    case False
    with Cons.prems have p: "p = AwaitPollStatus" by simp
    obtain p2 evs2 w2 where r: "run g (timer_script obs) AwaitPollStatus wk = (p2, evs2, w2)"
      by (cases "run g (timer_script obs) AwaitPollStatus wk") auto
    have "p2 = AwaitPollStatus \<and> evs2 = []"
      using Cons.IH [of wk] r p by simp
    then show ?thesis using p ob r by (simp add: timer_script_def)
  qed
qed

lemma use_stored_tokens_pc:
  "fst (use_stored_tokens g tokens AwaitPollStatus w) = AwaitPollStatus
   \<or> terminal (fst (use_stored_tokens g tokens AwaitPollStatus w))"
  by (simp add: use_stored_tokens_def Let_def split: option.splits)

lemma use_stored_tokens_no_timer:
  "filter is_SetTimeout (fst (snd (use_stored_tokens g tokens next w))) = []"
  by (simp add: use_stored_tokens_events split: option.splits)

text \<open>What the poll loop does from pass \<open>k\<close> on, whatever the timers find.\<close>

lemma poll_run_bound:
  assumes "k < 50"
  shows "length (filter is_SetTimeout
            (fst (snd (run g (timer_script obs) (AwaitPollTimer k) w)))) \<le> 49 - k
     \<and> set (filter is_SetTimeout
            (fst (snd (run g (timer_script obs) (AwaitPollTimer k) w)))) \<subseteq> {SetTimeout 100}
     \<and> (50 - k \<le> length obs \<longrightarrow>
          \<not> polling (fst (run g (timer_script obs) (AwaitPollTimer k) w))
          \<and> fst (run g (timer_script obs) (AwaitPollTimer k) w) \<noteq> Start)"
  using assms
proof (induction obs arbitrary: k w)
  case Nil
  then show ?case by (simp add: timer_script_def)
next
  case (Cons ob obs)
  obtain now wk where ob: "ob = (now, wk)" by (cases ob) auto
  have unfold: "run g (timer_script (ob # obs)) (AwaitPollTimer k) w =
      (case poll_step g now k wk of
         (p1, evs1, w1) \<Rightarrow>
           (case run g (timer_script obs) p1 w1 of (p2, evs2, w2) \<Rightarrow> (p2, evs1 @ evs2, w2)))"
    by (simp add: ob timer_script_def)
  show ?case
  proof (cases "valid_tokens now wk")
    case (Some tokens)
    obtain p1 evs1 w1 where u: "use_stored_tokens g tokens AwaitPollStatus wk = (p1, evs1, w1)"
      by (cases "use_stored_tokens g tokens AwaitPollStatus wk") auto
    have p1: "p1 = AwaitPollStatus \<or> terminal p1"
      using use_stored_tokens_pc [of g tokens wk] u by simp
    have e1: "filter is_SetTimeout evs1 = []"
      using use_stored_tokens_no_timer [of g tokens AwaitPollStatus wk] u by simp
    obtain p2 evs2 w2 where r: "run g (timer_script obs) p1 w1 = (p2, evs2, w2)"
      by (cases "run g (timer_script obs) p1 w1") auto
    have idle: "p2 = p1" "evs2 = []"
      using run_timers_idle [OF p1, of g obs w1] r by simp_all
    have "run g (timer_script (ob # obs)) (AwaitPollTimer k) w = (p1, evs1, w2)"
      unfolding unfold using Some u r idle by (simp add: poll_step_def)
    moreover have "\<not> polling p1 \<and> p1 \<noteq> Start" using p1 by (cases p1) auto
    ultimately show ?thesis using e1 by simp
  next
    case None
    show ?thesis
    proof (cases "isExchangeInProgress wk \<and> k + 1 < 50")
      case True
      obtain p2 evs2 w2 where
        r: "run g (timer_script obs) (AwaitPollTimer (k + 1)) wk = (p2, evs2, w2)"
        by (cases "run g (timer_script obs) (AwaitPollTimer (k + 1)) wk") auto
      have eq: "run g (timer_script (ob # obs)) (AwaitPollTimer k) w = (p2, SetTimeout 100 # evs2, w2)"
        unfolding unfold using None True r by (simp add: poll_step_def)
      have ih: "length (filter is_SetTimeout evs2) \<le> 49 - (k + 1)"
        "set (filter is_SetTimeout evs2) \<subseteq> {SetTimeout 100}"
        "50 - (k + 1) \<le> length obs \<longrightarrow> \<not> polling p2 \<and> p2 \<noteq> Start"
        using Cons.IH [of "k + 1" wk] True r by simp_all
      show ?thesis unfolding eq using ih True by auto
    next
      case False
      have "run g (timer_script (ob # obs)) (AwaitPollTimer k) w =
          (Finished, [], snd (snd (poll_failed wk)))"
        unfolding unfold using None False by (auto simp: poll_step_def poll_failed_def run_terminal)
      then show ?thesis by simp
    qed
  qed
qed

text \<open>
  The loop that never sees a valid token set ends in failure as soon as it sees the lock
  gone, and at the latest when the passes are used up.
\<close>

lemma poll_run_failure:
  assumes "k < 50"
    and "\<forall>ob \<in> set obs. valid_tokens (fst ob) (snd ob) = None"
    and "50 - k \<le> length obs \<or> (\<exists>ob \<in> set obs. \<not> isExchangeInProgress (snd ob))"
  shows "fst (run g (timer_script obs) (AwaitPollTimer k) w) = Finished
     \<and> userStatus (snd (snd (run g (timer_script obs) (AwaitPollTimer k) w))) = S_error
     \<and> loading (snd (snd (run g (timer_script obs) (AwaitPollTimer k) w))) = False
     \<and> ss_pending_code (snd (snd (run g (timer_script obs) (AwaitPollTimer k) w))) = None
     \<and> ss_exchange (snd (snd (run g (timer_script obs) (AwaitPollTimer k) w))) = None"
  using assms
proof (induction obs arbitrary: k w)
  case Nil
  then show ?case by simp
next
  case (Cons ob obs)
  obtain now wk where ob: "ob = (now, wk)" by (cases ob) auto
  have None: "valid_tokens now wk = None" using Cons.prems(2) ob by simp
  have unfold: "run g (timer_script (ob # obs)) (AwaitPollTimer k) w =
      (case poll_step g now k wk of
         (p1, evs1, w1) \<Rightarrow>
           (case run g (timer_script obs) p1 w1 of (p2, evs2, w2) \<Rightarrow> (p2, evs1 @ evs2, w2)))"
    by (simp add: ob timer_script_def)
  show ?case
  proof (cases "isExchangeInProgress wk \<and> k + 1 < 50")
    case True
    obtain p2 evs2 w2 where
      r: "run g (timer_script obs) (AwaitPollTimer (k + 1)) wk = (p2, evs2, w2)"
      by (cases "run g (timer_script obs) (AwaitPollTimer (k + 1)) wk") auto
    have eq: "run g (timer_script (ob # obs)) (AwaitPollTimer k) w = (p2, SetTimeout 100 # evs2, w2)"
      unfolding unfold using None True r by (simp add: poll_step_def)
    have a: "\<forall>ob \<in> set obs. valid_tokens (fst ob) (snd ob) = None"
      using Cons.prems(2) by simp
    have b: "50 - (k + 1) \<le> length obs \<or> (\<exists>ob \<in> set obs. \<not> isExchangeInProgress (snd ob))"
      using Cons.prems(3) True ob by auto
    show ?thesis unfolding eq using Cons.IH [of "k + 1" wk] True a b r by simp
  next
    case False
    have "run g (timer_script (ob # obs)) (AwaitPollTimer k) w =
        (Finished, [], (clearAuthorizationCode wk)\<lparr>userStatus := S_error, loading := False\<rparr>)"
      unfolding unfold using None False by (auto simp: poll_step_def poll_failed_def run_terminal)
    then show ?thesis by (simp add: clearAuthorizationCode_def)
  qed
qed

text \<open>
  C4. An initialisation that finds a pending callback with a valid state, no valid token
  set and the exchange lock already set enters the poll loop. Whatever the timers find in
  storage, the run sets at most 50 timers, each of 100 ms, and after 50 timers have fired
  it is no longer in the loop. When no timer finds a valid token set, and either one of
  them finds the lock gone or 50 of them have fired, the run has ended with the status
  \<^verbatim>\<open>error\<close>, \<^verbatim>\<open>loading\<close> switched off and the pending callback cleared.
\<close>

theorem poll_loop_bounded:
  assumes "fst (getAuthorizationCode w) = Some authCode"
    and "ss_state w = Some (state authCode)"
    and "valid_tokens now w = None"
    and "isExchangeInProgress w"
  shows "handleAuth g now Start Begin w =
       (AwaitPollTimer 0, [SetTimeout 100], snd (getAuthorizationCode w))
     \<and> length (filter is_SetTimeout
          (fst (snd (run g ((now, Begin, \<lambda>w. w) # timer_script obs) Start w)))) \<le> 50
     \<and> set (filter is_SetTimeout
          (fst (snd (run g ((now, Begin, \<lambda>w. w) # timer_script obs) Start w)))) \<subseteq> {SetTimeout 100}
     \<and> (50 \<le> length obs \<longrightarrow>
          \<not> polling (fst (run g ((now, Begin, \<lambda>w. w) # timer_script obs) Start w))
          \<and> fst (run g ((now, Begin, \<lambda>w. w) # timer_script obs) Start w) \<noteq> Start)
     \<and> ((\<forall>ob \<in> set obs. valid_tokens (fst ob) (snd ob) = None)
          \<and> (50 \<le> length obs \<or> (\<exists>ob \<in> set obs. \<not> isExchangeInProgress (snd ob))) \<longrightarrow>
          fst (run g ((now, Begin, \<lambda>w. w) # timer_script obs) Start w) = Finished
          \<and> userStatus (snd (snd (run g ((now, Begin, \<lambda>w. w) # timer_script obs) Start w))) = S_error
          \<and> loading (snd (snd (run g ((now, Begin, \<lambda>w. w) # timer_script obs) Start w))) = False
          \<and> ss_pending_code (snd (snd (run g ((now, Begin, \<lambda>w. w) # timer_script obs) Start w))) = None)"
proof -
  let ?w1 = "snd (getAuthorizationCode w)"
  have first: "handleAuth g now Start Begin w = (AwaitPollTimer 0, [SetTimeout 100], ?w1)"
    using callback_step [OF assms(1,2), of g now] assms(3,4) by (simp add: Let_def)
  obtain p2 evs2 w2 where r: "run g (timer_script obs) (AwaitPollTimer 0) ?w1 = (p2, evs2, w2)"
    by (cases "run g (timer_script obs) (AwaitPollTimer 0) ?w1") auto
  have whole: "run g ((now, Begin, \<lambda>w. w) # timer_script obs) Start w = (p2, SetTimeout 100 # evs2, w2)"
    using first r by simp
  have bound: "length (filter is_SetTimeout evs2) \<le> 49"
    "set (filter is_SetTimeout evs2) \<subseteq> {SetTimeout 100}"
    "50 \<le> length obs \<longrightarrow> \<not> polling p2 \<and> p2 \<noteq> Start"
    using poll_run_bound [of 0 g obs ?w1] r by simp_all
  have fail: "p2 = Finished \<and> userStatus w2 = S_error \<and> loading w2 = False \<and> ss_pending_code w2 = None"
    if "\<forall>ob \<in> set obs. valid_tokens (fst ob) (snd ob) = None"
      and "50 \<le> length obs \<or> (\<exists>ob \<in> set obs. \<not> isExchangeInProgress (snd ob))"
    using poll_run_failure [of 0 obs g ?w1] that r by simp
  show ?thesis
    unfolding whole using first bound fail by simp
qed

text \<open>
  A poller whose 50 timers all find the lock set and no tokens, and one whose second timer
  finds the lock gone.
\<close>

theorem poll_loop_bounded_witness:
  "fst (getAuthorizationCode (markExchangeInProgress (callback_page ''xyz''))) =
      Some \<lparr>code = ''abc'', state = ''xyz''\<rparr>
   \<and> isExchangeInProgress (markExchangeInProgress (callback_page ''xyz''))
   \<and> valid_tokens 0 (markExchangeInProgress (callback_page ''xyz'')) = None
   \<and> \<not> isExchangeInProgress (callback_page ''xyz'')
   \<and> fst (run no_user
        ((0, Begin, \<lambda>w. w) #
         timer_script (replicate 50 (100, markExchangeInProgress (callback_page ''xyz''))))
        Start (markExchangeInProgress (callback_page ''xyz''))) = Finished
   \<and> userStatus (snd (snd (run no_user
        ((0, Begin, \<lambda>w. w) #
         timer_script (replicate 50 (100, markExchangeInProgress (callback_page ''xyz''))))
        Start (markExchangeInProgress (callback_page ''xyz''))))) = S_error
   \<and> fst (run no_user
        ((0, Begin, \<lambda>w. w) #
         timer_script [(100, markExchangeInProgress (callback_page ''xyz'')),
                       (200, callback_page ''xyz'')])
        Start (markExchangeInProgress (callback_page ''xyz''))) = Finished
   \<and> userStatus (snd (snd (run no_user
        ((0, Begin, \<lambda>w. w) #
         timer_script [(100, markExchangeInProgress (callback_page ''xyz'')),
                       (200, callback_page ''xyz'')])
        Start (markExchangeInProgress (callback_page ''xyz''))))) = S_error"
proof -
  let ?w = "markExchangeInProgress (callback_page ''xyz'')"
  have a: "fst (getAuthorizationCode ?w) = Some \<lparr>code = ''abc'', state = ''xyz''\<rparr>"
    by (simp add: getAuthorizationCode_def markExchangeInProgress_def callback_page_def
        fresh_page_def params_get_def)
  have b: "ss_state ?w = Some (state \<lparr>code = ''abc'', state = ''xyz''\<rparr>)"
    by (simp add: markExchangeInProgress_def callback_page_def fresh_page_def)
  have c: "valid_tokens t ?w = None" "valid_tokens t (callback_page ''xyz'') = None" for t
    by (simp_all add: valid_tokens_def markExchangeInProgress_def callback_page_def fresh_page_def)
  have d: "isExchangeInProgress ?w" "\<not> isExchangeInProgress (callback_page ''xyz'')"
    by (simp_all add: isExchangeInProgress_def markExchangeInProgress_def callback_page_def
        fresh_page_def)
  note budget = poll_loop_bounded [where w = ?w and now = 0 and g = no_user
      and authCode = "\<lparr>code = ''abc'', state = ''xyz''\<rparr>"
      and obs = "replicate 50 (100, ?w)", OF a b c(1) d(1)]
  note gone = poll_loop_bounded [where w = ?w and now = 0 and g = no_user
      and authCode = "\<lparr>code = ''abc'', state = ''xyz''\<rparr>"
      and obs = "[(100, ?w), (200, callback_page ''xyz'')]", OF a b c(1) d(1)]
  show ?thesis
    using budget gone by (simp del: run.simps add: a c d)
qed

section \<open>The exchange lock\<close>

lemma cleared:
  "ss_exchange (clearAuthorizationCode w) = None"
  "ss_pending_code (clearAuthorizationCode w) = None"
  by (simp_all add: clearAuthorizationCode_def)

text \<open>What each stretch of the routine leaves of the lock and the pending callback.\<close>

lemma use_stored_tokens_result:
  assumes "use_stored_tokens g tokens next w = (p', evs, w')"
  shows "(p' = next \<or> p' = Rejected TypeError)
     \<and> ss_exchange w' = None \<and> ss_pending_code w' = None"
proof (cases "g (idToken tokens)")
  case None
  with assms have "p' = Rejected TypeError" "w' = clearAuthorizationCode w"
    by (simp_all add: use_stored_tokens_def Let_def)
  then show ?thesis by (simp add: cleared)
next
  case (Some u)
  with assms have "p' = next" "w' = (clearAuthorizationCode w)\<lparr>user := Some u\<rparr>"
    by (simp_all add: use_stored_tokens_def Let_def)
  then show ?thesis by (simp add: cleared)
qed

lemma exchange_failed_result:
  assumes "exchange_failed w = (p', evs, w')"
  shows "p' = Finished \<and> ss_exchange w' = None \<and> ss_pending_code w' = None"
proof -
  have "p' = Finished" "w' = (clearAuthorizationCode w)\<lparr>userStatus := S_error, loading := False\<rparr>"
    using assms by (simp_all add: exchange_failed_def)
  then show ?thesis by (simp add: cleared)
qed

lemma poll_step_result:
  assumes "poll_step g now k w = (p', evs, w')"
  shows "(p' = AwaitPollTimer (k + 1) \<and> w' = w)
     \<or> (\<not> polling p' \<and> ss_exchange w' = None \<and> ss_pending_code w' = None)"
proof (cases "valid_tokens now w")
  case (Some tokens)
  then have "use_stored_tokens g tokens AwaitPollStatus w = (p', evs, w')"
    using assms by (simp add: poll_step_def)
  from use_stored_tokens_result [OF this] show ?thesis by auto
next
  case None
  show ?thesis
  proof (cases "isExchangeInProgress w \<and> k + 1 < 50")
    case True
    with None assms show ?thesis by (simp add: poll_step_def)
  next
    case False
    with None assms have "p' = Finished"
      "w' = (clearAuthorizationCode w)\<lparr>userStatus := S_error, loading := False\<rparr>"
      by (auto simp: poll_step_def poll_failed_def split: if_splits)
    then show ?thesis by (simp add: cleared)
  qed
qed

lemma token_fetch_result:
  assumes "handleAuth g now AwaitTokenFetch i w = (p', evs, w')"
  shows "(exchanging p' \<and> ss_exchange w' = ss_exchange w)
     \<or> (p' = Finished \<and> ss_exchange w' = None \<and> ss_pending_code w' = None)"
proof (cases i)
  case (TokenFetched r)
  show ?thesis
  proof (cases r)
    case TokenFetchRejected
    then have "exchange_failed w = (p', evs, w')"
      using assms TokenFetched by (simp add: exchangeCodeForTokens_response_def)
    from exchange_failed_result [OF this] show ?thesis by simp
  next
    case (TokenFetchResponse ok body)
    show ?thesis
    proof (cases ok)
      case True
      then have "p' = AwaitTokenJson" "w' = w\<lparr>ss_verifier := None, ss_state := None\<rparr>"
        using assms TokenFetched TokenFetchResponse
        by (simp_all add: exchangeCodeForTokens_response_def)
      then show ?thesis by simp
    next
      case False
      then have "exchange_failed w = (p', evs, w')"
        using assms TokenFetched TokenFetchResponse
        by (simp add: exchangeCodeForTokens_response_def)
      from exchange_failed_result [OF this] show ?thesis by simp
    qed
  qed
qed (use assms in simp_all)

lemma token_json_result:
  assumes "handleAuth g now AwaitTokenJson i w = (p', evs, w')"
  shows "(exchanging p' \<and> ss_exchange w' = ss_exchange w)
     \<or> (\<not> exchanging p' \<and> ss_exchange w' = None \<and> ss_pending_code w' = None)"
proof (cases i)
  case (TokenParsed parsed)
  show ?thesis
  proof (cases parsed)
    case None
    then have "exchange_failed w = (p', evs, w')"
      using assms TokenParsed by (simp add: exchangeCodeForTokens_json_def)
    from exchange_failed_result [OF this] show ?thesis by simp
  next
    case (Some tokens)
    then have st: "store_tokens g now tokens w = (p', evs, w')"
      using assms TokenParsed by (simp add: exchangeCodeForTokens_json_def)
    show ?thesis
    proof (cases "g (id_token tokens)")
      case None
      with st obtain w1 where "exchange_failed w1 = (p', evs, w')"
        by (auto simp: store_tokens_def Let_def)
      from exchange_failed_result [OF this] show ?thesis by simp
    next
      case (Some u)
      with st obtain w0 where "p' = AwaitOwnerStatus"
        "w' = (clearAuthorizationCode w0)\<lparr>user := Some u\<rparr>"
        by (auto simp: store_tokens_def Let_def)
      then show ?thesis by (simp add: cleared)
    qed
  qed
qed (use assms in simp_all)

lemma begin_lock:
  assumes "handleAuth_begin g now w = (p', evs, w')"
  shows "(p' = AwaitTokenFetch \<and> \<not> isExchangeInProgress w \<and> isExchangeInProgress w')
     \<or> (\<not> exchanging p' \<and> (ss_exchange w' = ss_exchange w \<or> ss_exchange w' = None))"
proof (cases "fst (getAuthorizationCode w)")
  case None
  then have c: "checkStoredTokens g now w = (p', evs, w')"
    using assms getAuthorizationCode_absent [of w] by (simp add: handleAuth_begin_def)
  have "ss_exchange (snd (snd (checkStoredTokens g now w))) = ss_exchange w"
    "\<not> exchanging (fst (checkStoredTokens g now w))"
    by (simp_all add: checkStoredTokens_def split: option.splits)
  then show ?thesis unfolding c by simp
next
  case (Some authCode)
  have h: "handleAuth g now Start Begin w = (p', evs, w')" using assms by simp
  show ?thesis
  proof (cases "ss_state w = Some (state authCode)")
    case False
    have "p' = Finished" "w' = (clearAuthorizationCode (snd (getAuthorizationCode w)))\<lparr>loading := False\<rparr>"
      using h mismatch_step [OF Some False, of g now] by simp_all
    then show ?thesis by (simp add: cleared)
  next
    case True
    note step = callback_step [OF Some True, of g now]
    show ?thesis
    proof (cases "valid_tokens now w")
      case (Some tokens)
      then have "use_stored_tokens g tokens AwaitCachedStatus (snd (getAuthorizationCode w)) =
          (p', evs, w')"
        using h step by (simp add: Let_def)
      from use_stored_tokens_result [OF this] show ?thesis by auto
    next
      case None
      show ?thesis
      proof (cases "isExchangeInProgress w")
        case True
        then have "p' = AwaitPollTimer 0" "w' = snd (getAuthorizationCode w)"
          using h step None by (simp_all add: Let_def)
        then show ?thesis by (simp add: getAuthorizationCode_keeps)
      next
        case False
        let ?w2 = "markExchangeInProgress (snd (getAuthorizationCode w))"
        show ?thesis
        proof (cases "exchangeCodeForTokens_begin (code authCode) ?w2")
          case (Inl e)
          then have "exchange_failed ?w2 = (p', evs, w')"
            using h step None False by (simp add: Let_def)
          from exchange_failed_result [OF this] show ?thesis by simp
        next
          case (Inr request)
          then have "p' = AwaitTokenFetch" "w' = ?w2"
            using h step None False by (simp_all add: Let_def)
          then show ?thesis
            using False by (simp add: markExchangeInProgress_def isExchangeInProgress_def)
        qed
      qed
    qed
  qed
qed

lemma other_steps_keep_lock:
  assumes "handleAuth g now p i w = (p', evs, w')"
    and "p \<noteq> Start" and "\<not> exchanging p" and "\<not> polling p"
  shows "ss_exchange w' = ss_exchange w \<and> \<not> exchanging p'"
  using assms by (cases p; cases i; clarsimp simp: publish_status_def)

lemma stutter:
  assumes "handleAuth g now p i w = (p', evs, w')"
    and "(p = Start \<and> i \<noteq> Begin) \<or> ((\<exists>k. p = AwaitPollTimer k) \<and> i \<noteq> TimerFired)"
  shows "p' = p \<and> w' = w"
  using assms by (cases p; cases i; clarsimp)

lemma lock_not_set:
  assumes "ss_exchange w' = ss_exchange w \<or> ss_exchange w' = None"
  shows "\<not> (\<not> isExchangeInProgress w \<and> isExchangeInProgress w')"
  using assms by (auto simp: isExchangeInProgress_def)

text \<open>
  The lock goes from unset to set in one place only: the first step of a run that found
  it unset and has sent its token request.
\<close>

lemma lock_set_only_at_start:
  assumes "handleAuth g now p i w = (p', evs, w')"
    and "\<not> isExchangeInProgress w" and "isExchangeInProgress w'"
  shows "p = Start \<and> p' = AwaitTokenFetch"
proof -
  have change: "\<not> (ss_exchange w' = ss_exchange w \<or> ss_exchange w' = None)"
    using lock_not_set [of w' w] assms(2,3) by blast
  show ?thesis
  proof (cases p)
    case Start
    show ?thesis
    proof (cases "i = Begin")
      case True
      with assms(1) Start have "handleAuth_begin g now w = (p', evs, w')" by simp
      from begin_lock [OF this] change Start show ?thesis by blast
    next
      case False
      with stutter [OF assms(1)] Start have "w' = w" by simp
      with change show ?thesis by simp
    qed
  next
    case (AwaitPollTimer k)
    show ?thesis
    proof (cases "i = TimerFired")
      case True
      with assms(1) AwaitPollTimer have "poll_step g now k w = (p', evs, w')" by simp
      from poll_step_result [OF this] change show ?thesis by blast
    next
      case False
      with stutter [OF assms(1)] AwaitPollTimer have "w' = w" by simp
      with change show ?thesis by simp
    qed
  next
    case AwaitTokenFetch
    with token_fetch_result [of g now i w p' evs w'] assms(1) change show ?thesis by blast
  next
    case AwaitTokenJson
    with token_json_result [of g now i w p' evs w'] assms(1) change show ?thesis by blast
  next
    case AwaitCachedStatus
    with other_steps_keep_lock [OF assms(1)] change show ?thesis by simp
  next
    case AwaitPollStatus
    with other_steps_keep_lock [OF assms(1)] change show ?thesis by simp
  next
    case AwaitOwnerStatus
    with other_steps_keep_lock [OF assms(1)] change show ?thesis by simp
  next
    case AwaitStoredStatus
    with other_steps_keep_lock [OF assms(1)] change show ?thesis by simp
  next
    case Finished
    with other_steps_keep_lock [OF assms(1)] change show ?thesis by simp
  next
    case (Rejected e)
    with other_steps_keep_lock [OF assms(1)] change show ?thesis by simp
  qed
qed

lemma owner_step:
  assumes "handleAuth g now p i w = (p', evs, w')" and "exchanging p"
  shows "(exchanging p' \<and> ss_exchange w' = ss_exchange w)
     \<or> (\<not> exchanging p' \<and> ss_exchange w' = None \<and> ss_pending_code w' = None)"
proof (cases p)
  case AwaitTokenFetch
  with token_fetch_result [of g now i w p' evs w'] assms(1) show ?thesis by auto
next
  case AwaitTokenJson
  with token_json_result [of g now i w p' evs w'] assms(1) show ?thesis by simp
qed (use assms(2) in simp_all)

lemma poller_step:
  assumes "handleAuth g now p i w = (p', evs, w')" and "polling p"
  shows "(polling p' \<and> w' = w)
     \<or> (\<not> polling p' \<and> ss_exchange w' = None \<and> ss_pending_code w' = None)"
proof -
  obtain k where k: "p = AwaitPollTimer k" using assms(2) by (cases p) simp_all
  show ?thesis
  proof (cases "i = TimerFired")
    case True
    with assms(1) k have "poll_step g now k w = (p', evs, w')" by simp
    from poll_step_result [OF this] show ?thesis by auto
  next
    case False
    with stutter [OF assms(1)] k show ?thesis by simp
  qed
qed

text \<open>
  C5, as the code has it. In every configuration of concurrent initialisations, and so
  along every interleaving: a step sets the exchange lock only when it is the first step
  of a run that found it unset, and that run, the owner, then waits for the token
  endpoint. While the owner's exchange is unfinished the owner leaves the lock as it is;
  the step in which its exchange has succeeded or failed clears the lock and the pending
  callback. A polling run never sets the lock and changes nothing while it polls, but the
  step in which it stops polling (on a valid token set, on finding the lock gone, or with
  its passes used up) clears the lock and the pending callback as well. No step touches
  the position of another run.
\<close>

theorem lock_set_by_owner_cleared_by_all:
  assumes "k < length pcs"
    and "sched_step g (k, now, i) (pcs, w) = (pcs', w')"
  shows "(\<not> isExchangeInProgress w \<and> isExchangeInProgress w' \<longrightarrow>
            pcs ! k = Start \<and> pcs' ! k = AwaitTokenFetch)
     \<and> (exchanging (pcs ! k) \<and> exchanging (pcs' ! k) \<longrightarrow> ss_exchange w' = ss_exchange w)
     \<and> (exchanging (pcs ! k) \<and> \<not> exchanging (pcs' ! k) \<longrightarrow>
            ss_exchange w' = None \<and> ss_pending_code w' = None)
     \<and> (polling (pcs ! k) \<and> polling (pcs' ! k) \<longrightarrow> w' = w)
     \<and> (polling (pcs ! k) \<and> \<not> polling (pcs' ! k) \<longrightarrow>
            ss_exchange w' = None \<and> ss_pending_code w' = None)
     \<and> (\<forall>j. j \<noteq> k \<longrightarrow> pcs' ! j = pcs ! j)"
proof -
  obtain p' evs where s: "handleAuth g now (pcs ! k) i w = (p', evs, w')" and p: "pcs' = pcs[k := p']"
    using assms by (cases "handleAuth g now (pcs ! k) i w") auto
  have k: "pcs' ! k = p'" using p assms(1) by simp
  have others: "\<forall>j. j \<noteq> k \<longrightarrow> pcs' ! j = pcs ! j" using p by simp
  have 1: "\<not> isExchangeInProgress w \<and> isExchangeInProgress w' \<longrightarrow>
      pcs ! k = Start \<and> p' = AwaitTokenFetch"
    using lock_set_only_at_start [OF s] by blast
  have 2: "exchanging (pcs ! k) \<longrightarrow>
      (exchanging p' \<and> ss_exchange w' = ss_exchange w)
      \<or> (\<not> exchanging p' \<and> ss_exchange w' = None \<and> ss_pending_code w' = None)"
    using owner_step [OF s] by blast
  have 3: "polling (pcs ! k) \<longrightarrow>
      (polling p' \<and> w' = w)
      \<or> (\<not> polling p' \<and> ss_exchange w' = None \<and> ss_pending_code w' = None)"
    using poller_step [OF s] by blast
  show ?thesis unfolding k using 1 2 3 others by blast
qed

text \<open>
  The first step of the first run on a callback page, which sets the lock, and the last
  pass of a poller that still finds the lock set, which clears it.
\<close>

theorem lock_set_by_owner_cleared_by_all_witness:
  "\<not> isExchangeInProgress (callback_page ''xyz'')
   \<and> isExchangeInProgress (snd (sched_step no_user (0, 0, Begin) ([Start, Start], callback_page ''xyz'')))
   \<and> fst (sched_step no_user (0, 0, Begin) ([Start, Start], callback_page ''xyz'')) ! 0 = AwaitTokenFetch
   \<and> fst (sched_step no_user (0, 0, Begin) ([Start, Start], callback_page ''xyz'')) ! 1 = Start
   \<and> polling ([AwaitTokenFetch, AwaitPollTimer 49] ! 1)
   \<and> \<not> polling (fst (sched_step no_user (1, 5000, TimerFired)
          ([AwaitTokenFetch, AwaitPollTimer 49], markExchangeInProgress (callback_page ''xyz''))) ! 1)
   \<and> ss_exchange (snd (sched_step no_user (1, 5000, TimerFired)
          ([AwaitTokenFetch, AwaitPollTimer 49], markExchangeInProgress (callback_page ''xyz'')))) = None"
proof -
  let ?c0 = "([Start, Start], callback_page ''xyz'')"
  let ?c1 = "([AwaitTokenFetch, AwaitPollTimer 49], markExchangeInProgress (callback_page ''xyz''))"
  have a: "\<not> isExchangeInProgress (callback_page ''xyz'')"
    by (simp add: isExchangeInProgress_def callback_page_fields)
  have b: "isExchangeInProgress (snd (sched_step no_user (0, 0, Begin) ?c0))"
    by (simp add: handleAuth_begin_def getAuthorizationCode_def callback_page_def fresh_page_def
        params_get_def validateState_def valid_tokens_def isExchangeInProgress_def
        markExchangeInProgress_def exchangeCodeForTokens_begin_def)
  have c: "fst (sched_step no_user (1, 5000, TimerFired) ?c1) ! 1 = Finished"
    by (simp add: poll_step_def poll_failed_def valid_tokens_def isExchangeInProgress_def
        markExchangeInProgress_def callback_page_def fresh_page_def)
  have s0: "sched_step no_user (0, 0, Begin) ?c0 =
      (fst (sched_step no_user (0, 0, Begin) ?c0), snd (sched_step no_user (0, 0, Begin) ?c0))"
    by simp
  have s1: "sched_step no_user (1, 5000, TimerFired) ?c1 =
      (fst (sched_step no_user (1, 5000, TimerFired) ?c1),
       snd (sched_step no_user (1, 5000, TimerFired) ?c1))"
    by simp
  have l0: "0 < length [Start, Start]" and l1: "1 < length [AwaitTokenFetch, AwaitPollTimer 49]"
    by simp_all
  note set = lock_set_by_owner_cleared_by_all [OF l0 s0]
  note clear = lock_set_by_owner_cleared_by_all [OF l1 s1]
  have d: "fst (sched_step no_user (0, 0, Begin) ?c0) ! 0 = AwaitTokenFetch"
    using set a b by blast
  have e: "fst (sched_step no_user (0, 0, Begin) ?c0) ! 1 = Start"
    using set by (simp del: sched_step.simps)
  have f: "ss_exchange (snd (sched_step no_user (1, 5000, TimerFired) ?c1)) = None"
    using clear c by (simp del: sched_step.simps)
  show ?thesis using a b c d e f by (simp del: sched_step.simps)
qed

text \<open>
  Run 0 sets the lock and waits for the token endpoint; run 1 finds the lock set and
  polls. After its 50th timer run 1 has finished and the lock is gone, although run 1
  never set it and the exchange of run 0 has neither succeeded nor failed; one step
  earlier the lock was still set.
\<close>

theorem poller_clears_lock_counterexample:
  "\<not> lock_cleared_only_by_owner no_user timeout_schedule None ([Start, Start], callback_page ''xyz'')
   \<and> fst (run_schedule no_user timeout_schedule ([Start, Start], callback_page ''xyz'')) =
       [AwaitTokenFetch, Finished]
   \<and> ss_exchange (snd (run_schedule no_user timeout_schedule ([Start, Start], callback_page ''xyz''))) =
       None
   \<and> ss_exchange (snd (run_schedule no_user (butlast timeout_schedule)
        ([Start, Start], callback_page ''xyz''))) = Some ''true''"
  by code_simp

end
